theory Spec2Isabelle
  imports Main "HOL-Library.Multiset"
begin

section \<open>OmniSharp launcher: launch-target classification and process launch\<close>

text \<open>
  A shallow embedding of \<^verbatim>\<open>src/omnisharp/launcher.ts\<close>. JavaScript strings are
  modelled as \<^typ>\<open>string\<close>, one \<^typ>\<open>char\<close> per code unit. Functions of the
  platform that the launcher only calls (Node's \<^verbatim>\<open>path\<close> module, the editor's
  workspace API, \<^verbatim>\<open>String.prototype.localeCompare\<close>, the host-executable resolvers and
  \<^verbatim>\<open>spawn\<close>) are parameters of the model.
\<close>

subsection \<open>Data model\<close>

datatype LaunchTargetKind = Solution | Project | ProjectJson | Folder | Csx | Cake | LiveShare

record LaunchTarget =
  label :: string
  description :: string
  directory :: string
  target :: string
  workspaceKind :: LaunchTargetKind

record Uri =
  scheme :: string
  fsPath :: string

record WorkspaceFolder =
  uri :: Uri
  name :: string
  index :: nat

text \<open>The collaborators of the classifier.\<close>

record Host =
  dirname :: "string \<Rightarrow> string"
  basename :: "string \<Rightarrow> string"
  asRelativePath :: "string \<Rightarrow> string"
  localeCompare :: "string \<Rightarrow> string \<Rightarrow> int"
  getWorkspaceFolder :: "Uri \<Rightarrow> WorkspaceFolder option"

text \<open>
  The only exception the classifier can raise: \<^verbatim>\<open>workspaceFolders[folderIndex]\<close> is
  \<^verbatim>\<open>undefined\<close> when the index is out of range, and reading its \<^verbatim>\<open>uri\<close> throws.
\<close>

datatype error = TypeError

definition vslsTarget :: LaunchTarget where
  "vslsTarget =
     \<lparr>label = ''VSLS'', description = ''Visual Studio Live Share'', directory = '''',
      target = '''', workspaceKind = LiveShare\<rparr>"

definition vsls :: string where
  "vsls = ''vsls''"

definition disabledSchemes :: "string set" where
  "disabledSchemes = {vsls}"

subsection \<open>File-name tests\<close>

text \<open>
  The regular expressions carry the flag \<^verbatim>\<open>i\<close> and no flag \<^verbatim>\<open>u\<close>: a letter of
  the pattern matches itself in either case and nothing else.
\<close>

definition toLower :: "char \<Rightarrow> char" where
  "toLower c =
     (case map_of (zip ''ABCDEFGHIJKLMNOPQRSTUVWXYZ'' ''abcdefghijklmnopqrstuvwxyz'') c of
        Some d \<Rightarrow> d
      | None \<Rightarrow> c)"

definition lineTerminator :: "char \<Rightarrow> bool" where
  "lineTerminator c = (c = CHR 0x0A \<or> c = CHR 0x0D)"

text \<open>\<^verbatim>\<open>/<pat>$/i.test(s)\<close> for a pattern of literal characters, given in lower case.\<close>

definition endsWithIgnoreCase :: "string \<Rightarrow> string \<Rightarrow> bool" where
  "endsWithIgnoreCase s pat =
     (length pat \<le> length s \<and> map toLower (drop (length s - length pat) s) = pat)"

definition isCSharpProject :: "Uri \<Rightarrow> bool" where
  "isCSharpProject resource = endsWithIgnoreCase (fsPath resource) ''.csproj''"

definition isSolution :: "Uri \<Rightarrow> bool" where
  "isSolution resource =
     (endsWithIgnoreCase (fsPath resource) ''.sln'' \<or> endsWithIgnoreCase (fsPath resource) ''.slnf'')"

text \<open>
  \<^verbatim>\<open>/\project.json$/i\<close>: the escape \<^verbatim>\<open>\p\<close> is the letter p, and the dot is not
  escaped, so it stands for any character that is not a line terminator.
\<close>

definition isProjectJson :: "Uri \<Rightarrow> bool" where
  "isProjectJson resource =
     (let s = fsPath resource; t = drop (length s - 12) s
      in 12 \<le> length s \<and> map toLower (take 7 t) = ''project'' \<and> \<not> lineTerminator (t ! 7)
         \<and> map toLower (drop 8 t) = ''json'')"

definition isCsx :: "Uri \<Rightarrow> bool" where
  "isCsx resource = endsWithIgnoreCase (fsPath resource) ''.csx''"

definition isCake :: "Uri \<Rightarrow> bool" where
  "isCake resource = endsWithIgnoreCase (fsPath resource) ''.cake''"

definition isCs :: "Uri \<Rightarrow> bool" where
  "isCs resource = endsWithIgnoreCase (fsPath resource) ''.cs''"

subsection \<open>Grouping resources by workspace folder\<close>

text \<open>
  \<^verbatim>\<open>workspaceFolderToUriMap\<close> is a \<^verbatim>\<open>Map\<close>, iterated in the order in which its keys
  were first set: an association list, a new key going to the end.
\<close>

type_synonym FolderMap = "(nat \<times> Uri list) list"

fun pushResource :: "nat \<Rightarrow> Uri \<Rightarrow> FolderMap \<Rightarrow> FolderMap" where
  "pushResource i resource [] = [(i, [resource])]"
| "pushResource i resource ((j, buckets) # m) =
     (if j = i then (j, buckets @ [resource]) # m else (j, buckets) # pushResource i resource m)"

definition groupResource :: "Host \<Rightarrow> FolderMap \<Rightarrow> Uri \<Rightarrow> FolderMap" where
  "groupResource h m resource =
     (case getWorkspaceFolder h resource of
        None \<Rightarrow> m
      | Some folder \<Rightarrow> pushResource (index folder) resource m)"

subsection \<open>Scanning the folders\<close>

record Buckets =
  solutionTargets :: "LaunchTarget list"
  projectJsonTargets :: "LaunchTarget list"
  projectRootTargets :: "LaunchTarget list"
  projectTargets :: "LaunchTarget list"
  otherTargets :: "LaunchTarget list"

record Flags =
  hasProjectJsonAtRoot :: bool
  hasCSX :: bool
  hasCake :: bool
  hasCs :: bool

definition noTargets :: Buckets where
  "noTargets =
     \<lparr>solutionTargets = [], projectJsonTargets = [], projectRootTargets = [],
      projectTargets = [], otherTargets = []\<rparr>"

definition noFlags :: Flags where
  "noFlags = \<lparr>hasProjectJsonAtRoot = False, hasCSX = False, hasCake = False, hasCs = False\<rparr>"

text \<open>The body of the inner \<^verbatim>\<open>resources.forEach\<close>.\<close>

definition scanResource :: "Host \<Rightarrow> string \<Rightarrow> Buckets \<times> Flags \<Rightarrow> Uri \<Rightarrow> Buckets \<times> Flags" where
  "scanResource h folderPath st resource =
     (let b = fst st; f = snd st; dn = dirname h (fsPath resource)
      in if isSolution resource then
           (b\<lparr>solutionTargets := solutionTargets b @
                [\<lparr>label = basename h (fsPath resource), description = asRelativePath h dn,
                  directory = dirname h (fsPath resource), target = fsPath resource,
                  workspaceKind = Solution\<rparr>]\<rparr>, f)
         else if isProjectJson resource then
           (b\<lparr>projectJsonTargets := projectJsonTargets b @
                [\<lparr>label = basename h (fsPath resource), description = asRelativePath h dn,
                  directory = dn, target = dn, workspaceKind = ProjectJson\<rparr>]\<rparr>,
            f\<lparr>hasProjectJsonAtRoot := hasProjectJsonAtRoot f \<or> dn = folderPath\<rparr>)
         else if isCSharpProject resource then
           (b\<lparr>projectTargets := projectTargets b @
                [\<lparr>label = basename h (fsPath resource), description = asRelativePath h dn,
                  directory = dn, target = dn, workspaceKind = Project\<rparr>]\<rparr>, f)
         else
           (b, f\<lparr>hasCSX := hasCSX f \<or> isCsx resource, hasCake := hasCake f \<or> isCake resource,
                hasCs := hasCs f \<or> isCs resource\<rparr>))"

text \<open>
  \<^verbatim>\<open>if (c) { projectRootTargets.push(t); }\<close> and
  \<^verbatim>\<open>if (c) { otherTargets.push(t); }\<close>.
\<close>

definition pushRootIf :: "bool \<Rightarrow> LaunchTarget \<Rightarrow> Buckets \<Rightarrow> Buckets" where
  "pushRootIf c t b = (if c then b\<lparr>projectRootTargets := projectRootTargets b @ [t]\<rparr> else b)"

definition pushOtherIf :: "bool \<Rightarrow> LaunchTarget \<Rightarrow> Buckets \<Rightarrow> Buckets" where
  "pushOtherIf c t b = (if c then b\<lparr>otherTargets := otherTargets b @ [t]\<rparr> else b)"

text \<open>
  The body of the outer \<^verbatim>\<open>workspaceFolderToUriMap.forEach\<close>. The five target arrays
  are declared outside the loop, so \<^verbatim>\<open>hasCsProjFiles\<close>, \<^verbatim>\<open>hasSlnFile\<close> and
  \<^verbatim>\<open>hasProjectJson\<close> read what every folder so far has pushed.
\<close>

definition scanFolder :: "Host \<Rightarrow> WorkspaceFolder list \<Rightarrow> Buckets \<Rightarrow> nat \<times> Uri list \<Rightarrow> error + Buckets" where
  "scanFolder h workspaceFolders b0 entry =
     (let folderIndex = fst entry; resources = snd entry
      in if folderIndex < length workspaceFolders then
           (let folder = workspaceFolders ! folderIndex;
                folderPath = fsPath (uri folder);
                st = foldl (scanResource h folderPath) (b0, noFlags) resources;
                b1 = fst st; f = snd st;
                hasCsProjFiles = (0 < length (projectTargets b1));
                hasSlnFile = (0 < length (solutionTargets b1));
                hasProjectJson = (0 < length (projectJsonTargets b1));
                b2 = pushRootIf
                       ((hasCsProjFiles \<and> \<not> hasSlnFile) \<or> (hasProjectJson \<and> \<not> hasProjectJsonAtRoot f))
                       \<lparr>label = basename h folderPath, description = ''All contained projects'',
                        directory = folderPath, target = folderPath, workspaceKind = Folder\<rparr> b1;
                b3 = pushOtherIf (hasCSX f)
                       \<lparr>label = ''CSX'', description = basename h folderPath,
                        directory = folderPath, target = folderPath, workspaceKind = Csx\<rparr> b2;
                b4 = pushOtherIf (hasCake f)
                       \<lparr>label = ''Cake'', description = basename h folderPath,
                        directory = folderPath, target = folderPath, workspaceKind = Cake\<rparr> b3;
                b5 = pushOtherIf
                       (hasCs f \<and> \<not> hasSlnFile \<and> \<not> hasCsProjFiles \<and> \<not> hasProjectJson
                          \<and> \<not> hasProjectJsonAtRoot f)
                       \<lparr>label = basename h folderPath, description = [],
                        directory = folderPath, target = folderPath, workspaceKind = Folder\<rparr> b4
            in Inr b5)
         else Inl TypeError)"

fun scanFolders :: "Host \<Rightarrow> WorkspaceFolder list \<Rightarrow> Buckets \<Rightarrow> FolderMap \<Rightarrow> error + Buckets" where
  "scanFolders h workspaceFolders b [] = Inr b"
| "scanFolders h workspaceFolders b (entry # m) =
     (case scanFolder h workspaceFolders b entry of
        Inl e \<Rightarrow> Inl e
      | Inr b' \<Rightarrow> scanFolders h workspaceFolders b' m)"

subsection \<open>Sorting and the final list\<close>

text \<open>
  \<^verbatim>\<open>Array.prototype.sort\<close> with a comparison function is a stable sort; for a
  comparison function that is a consistent order its result is the one of stable insertion.
\<close>

fun insertTarget :: "('a \<Rightarrow> 'a \<Rightarrow> int) \<Rightarrow> 'a \<Rightarrow> 'a list \<Rightarrow> 'a list" where
  "insertTarget cmp a [] = [a]"
| "insertTarget cmp a (b # bs) = (if cmp a b \<le> 0 then a # b # bs else b # insertTarget cmp a bs)"

fun sortTargets :: "('a \<Rightarrow> 'a \<Rightarrow> int) \<Rightarrow> 'a list \<Rightarrow> 'a list" where
  "sortTargets cmp [] = []"
| "sortTargets cmp (a # ts) = insertTarget cmp a (sortTargets cmp ts)"

definition byDirectory :: "Host \<Rightarrow> LaunchTarget \<Rightarrow> LaunchTarget \<Rightarrow> int" where
  "byDirectory h a b = localeCompare h (directory a) (directory b)"

definition allTargets :: "Host \<Rightarrow> Buckets \<Rightarrow> LaunchTarget list" where
  "allTargets h b =
     otherTargets b @ sortTargets (byDirectory h) (solutionTargets b)
       @ sortTargets (byDirectory h) (projectRootTargets b)
       @ sortTargets (byDirectory h) (projectJsonTargets b)
       @ sortTargets (byDirectory h) (projectTargets b)"

definition resourcesAndFolderMapToLaunchTargets ::
    "Host \<Rightarrow> Uri list \<Rightarrow> WorkspaceFolder list \<Rightarrow> FolderMap \<Rightarrow> int \<Rightarrow> error + LaunchTarget list" where
  "resourcesAndFolderMapToLaunchTargets h resources workspaceFolders workspaceFolderToUriMap maxProjectResults =
     (case scanFolders h workspaceFolders noTargets workspaceFolderToUriMap of
        Inl e \<Rightarrow> Inl e
      | Inr b \<Rightarrow>
          Inr (if maxProjectResults > 0 then take (nat maxProjectResults) (allTargets h b)
               else allTargets h b))"

definition resourcesToLaunchTargets ::
    "Host \<Rightarrow> Uri list \<Rightarrow> WorkspaceFolder list \<Rightarrow> int \<Rightarrow> error + LaunchTarget list" where
  "resourcesToLaunchTargets h resources workspaceFolders maxProjectResults =
     (if length resources = 0 then Inr []
      else
        (let localResources = filter (\<lambda>resource. scheme resource \<notin> disabledSchemes) resources
         in if length localResources = 0 then Inr [vslsTarget]
            else resourcesAndFolderMapToLaunchTargets h resources workspaceFolders
                   (foldl (groupResource h) [] localResources) maxProjectResults))"

subsection \<open>Process launcher: data\<close>

type_synonym ProcessEnv = "(string \<times> string) list"

text \<open>The options object handed to \<^verbatim>\<open>spawn\<close>; a property that is left out is \<open>None\<close> or \<open>False\<close>.\<close>

record SpawnOptions =
  detached :: bool
  cwd :: string
  env :: "ProcessEnv option"
  windowsVerbatimArguments :: bool

record SpawnCall =
  spawnCommand :: string
  spawnArgs :: "string list"
  spawnOptions :: SpawnOptions

text \<open>An error value raised by a collaborator: a rejected resolver, a throwing \<^verbatim>\<open>spawn\<close>, an \<^verbatim>\<open>error\<close> event.\<close>

datatype failure = Failure string

datatype ProcessEvent = SpawnEvent | ErrorEvent failure | OtherEvent string

text \<open>
  A child process handle: its process id, if it has one, the lifecycle events it reports,
  in order, and how many of them it has reported by the time the \<^verbatim>\<open>then\<close> callback of
  \<^verbatim>\<open>launchOmniSharp\<close> attaches the two listeners. The events are reported on later
  turns of the event loop; whether the first of them comes before or after that callback
  depends on where \<^verbatim>\<open>launchOmniSharp\<close> is called from, so the number is the
  environment's to choose.
\<close>

record ChildProcess =
  pid :: "nat option"
  events :: "ProcessEvent list"
  missed :: nat

record HostExecutableInfo =
  version :: string
  path :: string
  hostEnv :: ProcessEnv

record Options =
  useEditorFormattingSettings :: bool
  useModernNet :: bool
  waitForDebugger :: bool

record PlatformInformation =
  isWindows :: bool

record IntermediateLaunchResult =
  process :: ChildProcess
  command :: string
  hostIsMono :: bool
  hostVersion :: "string option"
  hostPath :: "string option"

datatype ConfigValue = BoolValue bool | NumberValue int | StringValue string

text \<open>
  The collaborators of the launcher: \<^verbatim>\<open>spawn\<close> (\<open>Inl\<close> when it throws), the two
  workspace configurations, and the conversion of a number to its decimal string.
\<close>

record System =
  spawn :: "SpawnCall \<Rightarrow> failure + ChildProcess"
  globalConfig :: "string \<Rightarrow> ConfigValue option"
  csharpConfig :: "string \<Rightarrow> ConfigValue option"
  numberToString :: "int \<Rightarrow> string"

type_synonym IHostExecutableResolver = "Options \<Rightarrow> failure + HostExecutableInfo"

datatype 'a Promise = Pending | Fulfilled 'a | Rejected failure

subsection \<open>Process launcher: argument vectors\<close>

definition doubleQuote :: char where
  "doubleQuote = CHR 0x22"

definition endsWith :: "string \<Rightarrow> string \<Rightarrow> bool" where
  "endsWith s suffix = (length suffix \<le> length s \<and> drop (length s - length suffix) s = suffix)"

fun join :: "string \<Rightarrow> string list \<Rightarrow> string" where
  "join sep [] = []"
| "join sep [a] = a"
| "join sep (a # b # bs) = a @ sep @ join sep (b # bs)"

definition getConfigurationValue ::
    "(string \<Rightarrow> ConfigValue option) \<Rightarrow> (string \<Rightarrow> ConfigValue option) \<Rightarrow> string \<Rightarrow> ConfigValue \<Rightarrow> ConfigValue" where
  "getConfigurationValue global csharp configurationPath defaultValue =
     (case csharp configurationPath of
        Some v \<Rightarrow> v
      | None \<Rightarrow> (case global configurationPath of Some v \<Rightarrow> v | None \<Rightarrow> defaultValue))"

definition truthy :: "ConfigValue \<Rightarrow> bool" where
  "truthy v = (case v of BoolValue b \<Rightarrow> b | NumberValue n \<Rightarrow> n \<noteq> 0 | StringValue s \<Rightarrow> s \<noteq> [])"

definition boolToString :: "bool \<Rightarrow> string" where
  "boolToString b = (if b then ''true'' else ''false'')"

definition valueToString :: "System \<Rightarrow> ConfigValue \<Rightarrow> string" where
  "valueToString sys v =
     (case v of BoolValue b \<Rightarrow> boolToString b | NumberValue n \<Rightarrow> numberToString sys n | StringValue s \<Rightarrow> s)"

definition formattingArgs :: "System \<Rightarrow> string list" where
  "formattingArgs sys =
     [''formattingOptions:useTabs='' @
        boolToString (\<not> truthy (getConfigurationValue (globalConfig sys) (csharpConfig sys)
                                  ''editor.insertSpaces'' (BoolValue True))),
      ''formattingOptions:tabSize='' @
        valueToString sys (getConfigurationValue (globalConfig sys) (csharpConfig sys)
                             ''editor.tabSize'' (NumberValue 4)),
      ''formattingOptions:indentationSize='' @
        valueToString sys (getConfigurationValue (globalConfig sys) (csharpConfig sys)
                             ''editor.tabSize'' (NumberValue 4))]"

text \<open>\<^verbatim>\<open>Array.prototype.unshift\<close> with one argument.\<close>

definition unshift :: "'a \<Rightarrow> 'a list \<Rightarrow> 'a list" where
  "unshift a xs = a # xs"

text \<open>The call that \<^verbatim>\<open>launchDotnet\<close> makes to \<^verbatim>\<open>spawn\<close>.\<close>

definition dotnetSpawnCall ::
    "string \<Rightarrow> string \<Rightarrow> string list \<Rightarrow> PlatformInformation \<Rightarrow> HostExecutableInfo \<Rightarrow> SpawnCall" where
  "dotnetSpawnCall launchPath dir arguments platformInfo dotnetInfo =
     (let argsCopy = arguments;
          opts = \<lparr>detached = False, cwd = dir, env = Some (hostEnv dotnetInfo),
                  windowsVerbatimArguments = False\<rparr>
      in if \<not> endsWith launchPath ''.dll''
         then \<lparr>spawnCommand = launchPath, spawnArgs = argsCopy, spawnOptions = opts\<rparr>
         else \<lparr>spawnCommand = (if isWindows platformInfo then ''dotnet.exe'' else ''dotnet''),
               spawnArgs = unshift launchPath argsCopy, spawnOptions = opts\<rparr>)"

text \<open>
  \<^verbatim>\<open>/^[^"].* .*[^"]/.test(arg)\<close>, with no anchor at the end:
  \<open>matchTail\<close> is the match of \<^verbatim>\<open>.*[^"]\<close> and \<open>matchSpace\<close> the one of
  \<^verbatim>\<open>.* .*[^"]\<close> against a prefix of the rest of the argument.
\<close>

fun matchTail :: "string \<Rightarrow> bool" where
  "matchTail [] = False"
| "matchTail (c # cs) = (c \<noteq> doubleQuote \<or> (\<not> lineTerminator c \<and> matchTail cs))"

fun matchSpace :: "string \<Rightarrow> bool" where
  "matchSpace [] = False"
| "matchSpace (c # cs) = ((c = CHR '' '' \<and> matchTail cs) \<or> (\<not> lineTerminator c \<and> matchSpace cs))"

definition hasSpaceWithoutQuotes :: "string \<Rightarrow> bool" where
  "hasSpaceWithoutQuotes arg =
     (case arg of [] \<Rightarrow> False | c # cs \<Rightarrow> c \<noteq> doubleQuote \<and> matchSpace cs)"

text \<open>\<^verbatim>\<open>arg.replace("&", "^&")\<close>: a string pattern is replaced at its first occurrence only.\<close>

fun replaceAmpersand :: "string \<Rightarrow> string" where
  "replaceAmpersand [] = []"
| "replaceAmpersand (c # cs) = (if c = CHR ''&'' then ''^&'' @ cs else c # replaceAmpersand cs)"

definition escapeIfNeeded :: "string \<Rightarrow> string" where
  "escapeIfNeeded arg =
     (if hasSpaceWithoutQuotes arg then [doubleQuote] @ arg @ [doubleQuote]
      else replaceAmpersand arg)"

definition windowsSpawnCall :: "string \<Rightarrow> string \<Rightarrow> string list \<Rightarrow> SpawnCall" where
  "windowsSpawnCall launchPath dir arguments =
     (let argsCopy = unshift ([doubleQuote] @ launchPath @ [doubleQuote]) arguments;
          argsCopy' = [join '' '' [''/s'', ''/c'',
                         [doubleQuote] @ join '' '' (map escapeIfNeeded argsCopy) @ [doubleQuote]]]
      in \<lparr>spawnCommand = ''cmd'', spawnArgs = argsCopy',
          spawnOptions = \<lparr>detached = False, cwd = dir, env = None,
                           windowsVerbatimArguments = True\<rparr>\<rparr>)"

text \<open>The call that \<^verbatim>\<open>launchNixMono\<close> makes: each \<^verbatim>\<open>unshift\<close> puts its string in front.\<close>

definition monoSpawnCall :: "string \<Rightarrow> string \<Rightarrow> string list \<Rightarrow> ProcessEnv \<Rightarrow> bool \<Rightarrow> SpawnCall" where
  "monoSpawnCall launchPath dir arguments environment useDebugger =
     (let argsCopy = arguments;
          argsCopy1 = unshift launchPath argsCopy;
          argsCopy2 = unshift ''--assembly-loader=strict'' argsCopy1;
          argsCopy3 = (if useDebugger
                       then unshift ''--debugger-agent=transport=dt_socket,server=y,address=127.0.0.1:55555''
                              (unshift ''--debug'' argsCopy2)
                       else argsCopy2)
      in \<lparr>spawnCommand = ''mono'', spawnArgs = argsCopy3,
          spawnOptions = \<lparr>detached = False, cwd = dir, env = Some environment,
                           windowsVerbatimArguments = False\<rparr>\<rparr>)"

subsection \<open>Process launcher: strategies and the returned promise\<close>

definition launchDotnet ::
    "System \<Rightarrow> string \<Rightarrow> string \<Rightarrow> string list \<Rightarrow> PlatformInformation \<Rightarrow> Options
       \<Rightarrow> IHostExecutableResolver \<Rightarrow> failure + IntermediateLaunchResult" where
  "launchDotnet sys launchPath dir arguments platformInfo options dotnetResolver =
     (case dotnetResolver options of
        Inl reason \<Rightarrow> Inl reason
      | Inr dotnetInfo \<Rightarrow>
          (case spawn sys (dotnetSpawnCall launchPath dir arguments platformInfo dotnetInfo) of
             Inl reason \<Rightarrow> Inl reason
           | Inr p \<Rightarrow>
               Inr \<lparr>process = p, command = launchPath, hostIsMono = False,
                    hostVersion = Some (version dotnetInfo), hostPath = Some (path dotnetInfo)\<rparr>))"

definition launchWindows :: "System \<Rightarrow> string \<Rightarrow> string \<Rightarrow> string list \<Rightarrow> failure + IntermediateLaunchResult" where
  "launchWindows sys launchPath dir arguments =
     (case spawn sys (windowsSpawnCall launchPath dir arguments) of
        Inl reason \<Rightarrow> Inl reason
      | Inr p \<Rightarrow>
          Inr \<lparr>process = p, command = launchPath, hostIsMono = False,
               hostVersion = None, hostPath = None\<rparr>)"

definition launchNixMono ::
    "System \<Rightarrow> string \<Rightarrow> string \<Rightarrow> string list \<Rightarrow> ProcessEnv \<Rightarrow> bool \<Rightarrow> failure + ChildProcess" where
  "launchNixMono sys launchPath dir arguments environment useDebugger =
     spawn sys (monoSpawnCall launchPath dir arguments environment useDebugger)"

definition launchNix ::
    "System \<Rightarrow> string \<Rightarrow> string \<Rightarrow> string list \<Rightarrow> Options \<Rightarrow> IHostExecutableResolver
       \<Rightarrow> failure + IntermediateLaunchResult" where
  "launchNix sys launchPath dir arguments options monoResolver =
     (case monoResolver options of
        Inl reason \<Rightarrow> Inl reason
      | Inr monoInfo \<Rightarrow>
          (case launchNixMono sys launchPath dir arguments (hostEnv monoInfo) (waitForDebugger options) of
             Inl reason \<Rightarrow> Inl reason
           | Inr p \<Rightarrow>
               Inr \<lparr>process = p, command = launchPath, hostIsMono = True,
                    hostVersion = Some (version monoInfo), hostPath = Some (path monoInfo)\<rparr>))"

text \<open>The argument list after the three \<^verbatim>\<open>args.push\<close> of \<^verbatim>\<open>launch\<close>.\<close>

definition launchArguments :: "System \<Rightarrow> Options \<Rightarrow> string list \<Rightarrow> string list" where
  "launchArguments sys options arguments =
     (if useEditorFormattingSettings options then arguments @ formattingArgs sys else arguments)"

definition launch ::
    "System \<Rightarrow> string \<Rightarrow> string list \<Rightarrow> string \<Rightarrow> PlatformInformation \<Rightarrow> Options
       \<Rightarrow> IHostExecutableResolver \<Rightarrow> IHostExecutableResolver \<Rightarrow> failure + IntermediateLaunchResult" where
  "launch sys dir arguments launchPath platformInfo options monoResolver dotnetResolver =
     (let arguments' = launchArguments sys options arguments
      in if useModernNet options
         then launchDotnet sys launchPath dir arguments' platformInfo options dotnetResolver
         else if isWindows platformInfo then launchWindows sys launchPath dir arguments'
         else launchNix sys launchPath dir arguments' options monoResolver)"

text \<open>A promise is settled once: \<^verbatim>\<open>resolve\<close> and \<^verbatim>\<open>reject\<close> do nothing to a settled one.\<close>

definition resolve :: "'a \<Rightarrow> 'a Promise \<Rightarrow> 'a Promise" where
  "resolve v p = (case p of Pending \<Rightarrow> Fulfilled v | _ \<Rightarrow> p)"

definition reject :: "failure \<Rightarrow> 'a Promise \<Rightarrow> 'a Promise" where
  "reject reason p = (case p of Pending \<Rightarrow> Rejected reason | _ \<Rightarrow> p)"

text \<open>The two listeners that \<^verbatim>\<open>launchOmniSharp\<close> attaches, run on one event.\<close>

definition onEvent :: "IntermediateLaunchResult \<Rightarrow> IntermediateLaunchResult Promise \<Rightarrow> ProcessEvent
    \<Rightarrow> IntermediateLaunchResult Promise" where
  "onEvent result p ev =
     (case ev of
        ErrorEvent err \<Rightarrow> reject err p
      | SpawnEvent \<Rightarrow> resolve result p
      | OtherEvent _ \<Rightarrow> p)"

text \<open>The events that reach the listeners: those reported after they are attached.\<close>

definition heard :: "ChildProcess \<Rightarrow> ProcessEvent list" where
  "heard p = drop (missed p) (events p)"

text \<open>
  \<^verbatim>\<open>launchOmniSharp\<close>: a failed \<^verbatim>\<open>launch\<close> rejects the promise; a successful one
  attaches the listeners in the \<^verbatim>\<open>then\<close> callback, and only the events reported from
  then on can settle it.
\<close>

definition launchOmniSharp ::
    "System \<Rightarrow> string \<Rightarrow> string list \<Rightarrow> string \<Rightarrow> PlatformInformation \<Rightarrow> Options
       \<Rightarrow> IHostExecutableResolver \<Rightarrow> IHostExecutableResolver \<Rightarrow> IntermediateLaunchResult Promise" where
  "launchOmniSharp sys dir arguments launchPath platformInfo options monoResolver dotnetResolver =
     (case launch sys dir arguments launchPath platformInfo options monoResolver dotnetResolver of
        Inl reason \<Rightarrow> reject reason Pending
      | Inr result \<Rightarrow> foldl (onEvent result) Pending (heard (process result)))"

subsection \<open>Properties used in the statements\<close>

text \<open>
  A comparison function is a consistent order when any two strings are comparable and
  the relation \<open>cmp a b \<le> 0\<close> is transitive.
\<close>

definition consistentOrder :: "(string \<Rightarrow> string \<Rightarrow> int) \<Rightarrow> bool" where
  "consistentOrder cmp =
     ((\<forall>a b. cmp a b \<le> 0 \<or> cmp b a \<le> 0) \<and> (\<forall>a b c. cmp a b \<le> 0 \<and> cmp b c \<le> 0 \<longrightarrow> cmp a c \<le> 0))"

definition sortedByDirectory :: "Host \<Rightarrow> LaunchTarget list \<Rightarrow> bool" where
  "sortedByDirectory h ts = sorted_wrt (\<lambda>a b. localeCompare h (directory a) (directory b) \<le> 0) ts"

text \<open>The shape of the targets that the scan pushes to each of its five arrays.\<close>

definition shaped :: "Host \<Rightarrow> Buckets \<Rightarrow> bool" where
  "shaped h b =
     ((\<forall>t \<in> set (solutionTargets b). workspaceKind t = Solution \<and> directory t = dirname h (target t))
      \<and> (\<forall>t \<in> set (projectJsonTargets b). workspaceKind t = ProjectJson \<and> target t = directory t)
      \<and> (\<forall>t \<in> set (projectRootTargets b).
            workspaceKind t = Folder \<and> description t = ''All contained projects'' \<and> target t = directory t)
      \<and> (\<forall>t \<in> set (projectTargets b). workspaceKind t = Project \<and> target t = directory t)
      \<and> (\<forall>t \<in> set (otherTargets b).
            workspaceKind t \<in> {Csx, Cake, Folder} \<and> target t = directory t
            \<and> (workspaceKind t = Folder \<longrightarrow> description t = [])))"

text \<open>
  The escaping rule in the words of the specification: an argument that contains
  whitespace and is not already fully quoted is wrapped in double quotes; otherwise every
  \<^verbatim>\<open>&\<close> becomes \<^verbatim>\<open>^&\<close>.
\<close>

definition whitespace :: "char \<Rightarrow> bool" where
  "whitespace c = (c = CHR '' '' \<or> c = CHR 0x09 \<or> lineTerminator c)"

definition fullyQuoted :: "string \<Rightarrow> bool" where
  "fullyQuoted arg = (2 \<le> length arg \<and> hd arg = doubleQuote \<and> last arg = doubleQuote)"

definition escapeEveryAmpersand :: "string \<Rightarrow> string" where
  "escapeEveryAmpersand arg = concat (map (\<lambda>c. if c = CHR ''&'' then ''^&'' else [c]) arg)"

definition escapeIfNeeded_spec :: "string \<Rightarrow> string" where
  "escapeIfNeeded_spec arg =
     (if list_ex whitespace arg \<and> \<not> fullyQuoted arg then [doubleQuote] @ arg @ [doubleQuote]
      else escapeEveryAmpersand arg)"

subsection \<open>Example collaborators\<close>

text \<open>
  Concrete collaborators on which the model is evaluated: paths are split at the last
  \<^verbatim>\<open>/\<close>, strings are compared code unit by code unit, a resource belongs to the first
  workspace folder whose root is a proper prefix of its path, and relative paths are
  left as they are.
\<close>

definition exampleDirname :: "string \<Rightarrow> string" where
  "exampleDirname p = rev (drop 1 (dropWhile (\<lambda>c. c \<noteq> CHR ''/'') (rev p)))"

definition exampleBasename :: "string \<Rightarrow> string" where
  "exampleBasename p = rev (takeWhile (\<lambda>c. c \<noteq> CHR ''/'') (rev p))"

fun compareCodeUnits :: "string \<Rightarrow> string \<Rightarrow> int" where
  "compareCodeUnits [] [] = 0"
| "compareCodeUnits [] (d # ds) = - 1"
| "compareCodeUnits (c # cs) [] = 1"
| "compareCodeUnits (c # cs) (d # ds) =
     (if (of_char c :: nat) < of_char d then - 1
      else if (of_char d :: nat) < of_char c then 1
      else compareCodeUnits cs ds)"

definition folderOf :: "WorkspaceFolder list \<Rightarrow> Uri \<Rightarrow> WorkspaceFolder option" where
  "folderOf folders resource =
     find (\<lambda>w. take (Suc (length (fsPath (uri w)))) (fsPath resource) = fsPath (uri w) @ ''/'') folders"

definition exampleHost :: "WorkspaceFolder list \<Rightarrow> Host" where
  "exampleHost folders =
     \<lparr>dirname = exampleDirname, basename = exampleBasename, asRelativePath = (\<lambda>p. p),
      localeCompare = compareCodeUnits, getWorkspaceFolder = folderOf folders\<rparr>"

definition fileUri :: "string \<Rightarrow> Uri" where
  "fileUri p = \<lparr>scheme = ''file'', fsPath = p\<rparr>"

definition vslsUri :: "string \<Rightarrow> Uri" where
  "vslsUri p = \<lparr>scheme = ''vsls'', fsPath = p\<rparr>"

definition twoFolders :: "WorkspaceFolder list" where
  "twoFolders =
     [\<lparr>uri = fileUri ''/a'', name = ''a'', index = 0\<rparr>, \<lparr>uri = fileUri ''/b'', name = ''b'', index = 1\<rparr>]"

text \<open>The decimal numeral of an integer, for \<open>numberToString\<close>.\<close>

definition digit :: "nat \<Rightarrow> char" where
  "digit d = ''0123456789'' ! d"

function decimalNat :: "nat \<Rightarrow> string" where
  "decimalNat n = (if n < 10 then [digit n] else decimalNat (n div 10) @ [digit (n mod 10)])"
  by pat_completeness auto
termination
  by (relation "measure (\<lambda>n. n)") auto

declare decimalNat.simps [simp del]

definition decimal :: "int \<Rightarrow> string" where
  "decimal n = (if n < 0 then CHR ''-'' # decimalNat (nat (- n)) else decimalNat (nat n))"

text \<open>
  A system whose \<^verbatim>\<open>spawn\<close> succeeds with a process that reports the given events,
  all of them after the listeners are attached.
\<close>

definition exampleSystem :: "ProcessEvent list \<Rightarrow> System" where
  "exampleSystem evs =
     \<lparr>spawn = (\<lambda>call. Inr \<lparr>pid = Some 4711, events = evs, missed = 0\<rparr>),
      globalConfig = (\<lambda>key. None), csharpConfig = (\<lambda>key. None),
      numberToString = decimal\<rparr>"

text \<open>
  A system whose \<^verbatim>\<open>spawn\<close> succeeds with a process that reports the given events,
  the first \<open>n\<close> of them before the listeners are attached.
\<close>

definition lateListenerSystem :: "ProcessEvent list \<Rightarrow> nat \<Rightarrow> System" where
  "lateListenerSystem evs n =
     \<lparr>spawn = (\<lambda>call. Inr \<lparr>pid = Some 4711, events = evs, missed = n\<rparr>),
      globalConfig = (\<lambda>key. None), csharpConfig = (\<lambda>key. None),
      numberToString = decimal\<rparr>"

text \<open>
  A system whose \<^verbatim>\<open>spawn\<close> knows one command line only: it throws on any other call.
  The process it starts reports the given events, the first \<open>n\<close> of them before the
  listeners are attached.
\<close>

definition systemExpecting :: "string \<Rightarrow> string list \<Rightarrow> ProcessEvent list \<Rightarrow> nat \<Rightarrow> System" where
  "systemExpecting cmd arguments evs n =
     \<lparr>spawn = (\<lambda>call. if spawnCommand call = cmd \<and> spawnArgs call = arguments
                      then Inr \<lparr>pid = Some 4711, events = evs, missed = n\<rparr>
                      else Inl (Failure ''ENOENT'')),
      globalConfig = (\<lambda>key. None), csharpConfig = (\<lambda>key. None),
      numberToString = decimal\<rparr>"

definition windows :: PlatformInformation where
  "windows = \<lparr>isWindows = True\<rparr>"

definition modernOptions :: Options where
  "modernOptions = \<lparr>useEditorFormattingSettings = False, useModernNet = True, waitForDebugger = False\<rparr>"

definition dotnetResolverExample :: IHostExecutableResolver where
  "dotnetResolverExample options =
     Inr \<lparr>version = ''6.0.100'', path = ''/usr/bin/dotnet'', hostEnv = []\<rparr>"

text \<open>
  A comparison in the manner of the default collation of \<^verbatim>\<open>localeCompare\<close> on strings
  that differ in the case of a letter only: strings are first compared without regard to
  case, and of two strings equal up to case the one with the lower-case letter at the
  first difference comes first.
\<close>

definition collate :: "string \<Rightarrow> string \<Rightarrow> int" where
  "collate a b =
     (if compareCodeUnits (map toLower a) (map toLower b) \<noteq> 0
      then compareCodeUnits (map toLower a) (map toLower b)
      else compareCodeUnits b a)"

definition collatingHost :: "WorkspaceFolder list \<Rightarrow> Host" where
  "collatingHost folders =
     \<lparr>dirname = exampleDirname, basename = exampleBasename, asRelativePath = (\<lambda>p. p),
      localeCompare = collate, getWorkspaceFolder = folderOf folders\<rparr>"

text \<open>
  Sorted by directory in ascending lexicographic order, in the words of the
  specification: the directories ascend in the order of their code units.
\<close>

definition ascendingLexicographic :: "LaunchTarget list \<Rightarrow> bool" where
  "ascendingLexicographic ts =
     sorted_wrt (\<lambda>a b. compareCodeUnits (directory a) (directory b) \<le> 0) ts"

definition exampleResolver :: IHostExecutableResolver where
  "exampleResolver options = Inr \<lparr>version = ''6.12.0'', path = ''/usr/bin/mono'', hostEnv = []\<rparr>"

definition legacyOptions :: Options where
  "legacyOptions = \<lparr>useEditorFormattingSettings = False, useModernNet = False, waitForDebugger = True\<rparr>"

definition linux :: PlatformInformation where
  "linux = \<lparr>isWindows = False\<rparr>"

definition exampleMap :: FolderMap where
  "exampleMap =
     [(1, [fileUri ''/b/B.sln'', fileUri ''/b/run.csx'']),
      (0, [fileUri ''/a/A.sln'', fileUri ''/a/build.cake''])]"

definition exampleScan :: Buckets where
  "exampleScan =
     \<lparr>solutionTargets =
        [\<lparr>label = ''B.sln'', description = ''/b'', directory = ''/b'', target = ''/b/B.sln'',
          workspaceKind = Solution\<rparr>,
         \<lparr>label = ''A.sln'', description = ''/a'', directory = ''/a'', target = ''/a/A.sln'',
          workspaceKind = Solution\<rparr>],
      projectJsonTargets = [], projectRootTargets = [], projectTargets = [],
      otherTargets =
        [\<lparr>label = ''CSX'', description = ''b'', directory = ''/b'', target = ''/b'', workspaceKind = Csx\<rparr>,
         \<lparr>label = ''Cake'', description = ''a'', directory = ''/a'', target = ''/a'', workspaceKind = Cake\<rparr>]\<rparr>"

section \<open>The target classifier\<close>

subsection \<open>The sort\<close>

lemma mset_insertTarget: "mset (insertTarget cmp a bs) = add_mset a (mset bs)"
  by (induction bs) auto

lemma set_insertTarget: "set (insertTarget cmp a bs) = insert a (set bs)"
  by (induction bs) auto

lemma mset_sortTargets: "mset (sortTargets cmp ts) = mset ts"
  by (induction ts) (simp_all add: mset_insertTarget)

lemma set_sortTargets: "set (sortTargets cmp ts) = set ts"
  using mset_sortTargets [of cmp ts] by (metis set_mset_mset)

lemma length_sortTargets: "length (sortTargets cmp ts) = length ts"
  using mset_sortTargets [of cmp ts] by (metis size_mset)

lemma sorted_insertTarget:
  assumes total: "\<forall>x y. cmp x y \<le> 0 \<or> cmp y x \<le> 0"
    and trans: "\<forall>x y z. cmp x y \<le> 0 \<and> cmp y z \<le> 0 \<longrightarrow> cmp x z \<le> 0"
    and sorted: "sorted_wrt (\<lambda>x y. cmp x y \<le> 0) bs"
  shows "sorted_wrt (\<lambda>x y. cmp x y \<le> 0) (insertTarget cmp a bs)"
  using sorted
proof (induction bs)
  case Nil
  then show ?case by simp
next
  case (Cons b bs)
  show ?case
  proof (cases "cmp a b \<le> 0")
    case True
    have "\<forall>y \<in> set bs. cmp a y \<le> 0"
    proof
      fix y
      assume "y \<in> set bs"
      with Cons.prems have "cmp b y \<le> 0" by simp
      with True trans show "cmp a y \<le> 0" by blast
    qed
    with True Cons.prems show ?thesis by simp
  next
    case False
    with total have "cmp b a \<le> 0" by blast
    moreover have "set (insertTarget cmp a bs) = insert a (set bs)"
      by (rule set_insertTarget)
    moreover from Cons have "sorted_wrt (\<lambda>x y. cmp x y \<le> 0) (insertTarget cmp a bs)" by simp
    moreover from Cons.prems have "\<forall>y \<in> set bs. cmp b y \<le> 0" by simp
    ultimately show ?thesis using False by simp
  qed
qed

lemma sorted_sortTargets:
  assumes total: "\<forall>x y. cmp x y \<le> 0 \<or> cmp y x \<le> 0"
    and trans: "\<forall>x y z. cmp x y \<le> 0 \<and> cmp y z \<le> 0 \<longrightarrow> cmp x z \<le> 0"
  shows "sorted_wrt (\<lambda>x y. cmp x y \<le> 0) (sortTargets cmp ts)"
proof (induction ts)
  case Nil
  show ?case by simp
next
  case (Cons a ts)
  from total trans Cons.IH
  have "sorted_wrt (\<lambda>x y. cmp x y \<le> 0) (insertTarget cmp a (sortTargets cmp ts))"
    by (rule sorted_insertTarget)
  then show ?case by simp
qed

lemma sortedByDirectory_sortTargets:
  assumes "consistentOrder (localeCompare h)"
  shows "sortedByDirectory h (sortTargets (byDirectory h) ts)"
proof -
  from assms have total: "\<forall>x y. byDirectory h x y \<le> 0 \<or> byDirectory h y x \<le> 0"
    unfolding consistentOrder_def byDirectory_def by blast
  have trans: "\<forall>x y z. byDirectory h x y \<le> 0 \<and> byDirectory h y z \<le> 0 \<longrightarrow> byDirectory h x z \<le> 0"
  proof (intro allI impI)
    fix x y z
    assume "byDirectory h x y \<le> 0 \<and> byDirectory h y z \<le> 0"
    then have "localeCompare h (directory x) (directory y) \<le> 0
        \<and> localeCompare h (directory y) (directory z) \<le> 0"
      by (simp add: byDirectory_def)
    moreover from assms
    have "\<forall>a b c. localeCompare h a b \<le> 0 \<and> localeCompare h b c \<le> 0 \<longrightarrow> localeCompare h a c \<le> 0"
      unfolding consistentOrder_def by (rule conjunct2)
    ultimately have "localeCompare h (directory x) (directory z) \<le> 0" by blast
    then show "byDirectory h x z \<le> 0" by (simp add: byDirectory_def)
  qed
  from total trans
  have "sorted_wrt (\<lambda>x y. byDirectory h x y \<le> 0) (sortTargets (byDirectory h) ts)"
    by (rule sorted_sortTargets)
  then show ?thesis by (simp add: sortedByDirectory_def byDirectory_def)
qed

lemma compareCodeUnits_total: "compareCodeUnits a b \<le> 0 \<or> compareCodeUnits b a \<le> 0"
  by (induction a b rule: compareCodeUnits.induct) auto

lemma compareCodeUnits_trans:
  "compareCodeUnits a b \<le> 0 \<Longrightarrow> compareCodeUnits b c \<le> 0 \<Longrightarrow> compareCodeUnits a c \<le> 0"
proof (induction a b arbitrary: c rule: compareCodeUnits.induct)
  case 1
  then show ?case by simp
next
  case (2 d ds)
  then show ?case by (cases c) simp_all
next
  case (3 c cs)
  then show ?case by simp
next
  case (4 x xs y ys)
  show ?case
  proof (cases c)
    case Nil
    with 4 show ?thesis by simp
  next
    case (Cons z zs)
    have xy: "(of_char x :: nat) \<le> of_char y"
      using "4.prems"(1) by (simp split: if_splits)
    have yz: "(of_char y :: nat) \<le> of_char z"
      using "4.prems"(2) Cons by (simp split: if_splits)
    show ?thesis
    proof (cases "(of_char x :: nat) < of_char z")
      case True
      then show ?thesis using Cons by simp
    next
      case False
      with xy yz have eq: "(of_char x :: nat) = of_char y" "(of_char y :: nat) = of_char z" by linarith+
      then have "compareCodeUnits xs ys \<le> 0" "compareCodeUnits ys zs \<le> 0"
        using "4.prems" Cons by simp_all
      then have "compareCodeUnits xs zs \<le> 0"
        using "4.IH" eq by simp
      then show ?thesis using Cons eq by simp
    qed
  qed
qed

lemma consistentOrder_compareCodeUnits: "consistentOrder compareCodeUnits"
  unfolding consistentOrder_def
proof (intro conjI allI impI)
  fix a b
  show "compareCodeUnits a b \<le> 0 \<or> compareCodeUnits b a \<le> 0"
    by (rule compareCodeUnits_total)
next
  fix a b c
  assume "compareCodeUnits a b \<le> 0 \<and> compareCodeUnits b c \<le> 0"
  then show "compareCodeUnits a c \<le> 0"
    using compareCodeUnits_trans [of a b c] by simp
qed

lemma filter_insertTarget_in:
  "P a \<Longrightarrow> \<forall>y \<in> set bs. P y \<longrightarrow> cmp a y \<le> 0 \<Longrightarrow> filter P (insertTarget cmp a bs) = a # filter P bs"
  by (induction bs) auto

lemma filter_insertTarget_out: "\<not> P a \<Longrightarrow> filter P (insertTarget cmp a bs) = filter P bs"
  by (induction bs) auto

lemma filter_sortTargets:
  "\<forall>x \<in> set ts. \<forall>y \<in> set ts. P x \<and> P y \<longrightarrow> cmp x y \<le> 0 \<Longrightarrow> filter P (sortTargets cmp ts) = filter P ts"
proof (induction ts)
  case Nil
  show ?case by simp
next
  case (Cons a ts)
  from Cons.prems have rest: "\<forall>x \<in> set ts. \<forall>y \<in> set ts. P x \<and> P y \<longrightarrow> cmp x y \<le> 0" by simp
  then have IH: "filter P (sortTargets cmp ts) = filter P ts" by (rule Cons.IH)
  show ?case
  proof (cases "P a")
    case True
    with Cons.prems have "\<forall>y \<in> set (sortTargets cmp ts). P y \<longrightarrow> cmp a y \<le> 0"
      by (simp add: set_sortTargets)
    with True have "filter P (insertTarget cmp a (sortTargets cmp ts)) = a # filter P (sortTargets cmp ts)"
      by (rule filter_insertTarget_in)
    with True IH show ?thesis by simp
  next
    case False
    then have "filter P (insertTarget cmp a (sortTargets cmp ts)) = filter P (sortTargets cmp ts)"
      by (rule filter_insertTarget_out)
    with False IH show ?thesis by simp
  qed
qed

lemma same_directory_stable:
  assumes "consistentOrder (localeCompare h)"
  shows "filter (\<lambda>t. directory t = d) (sortTargets (byDirectory h) ts) = filter (\<lambda>t. directory t = d) ts"
proof -
  from assms have "localeCompare h d d \<le> 0" unfolding consistentOrder_def by blast
  then have "\<forall>x \<in> set ts. \<forall>y \<in> set ts. directory x = d \<and> directory y = d \<longrightarrow> byDirectory h x y \<le> 0"
    by (simp add: byDirectory_def)
  then show ?thesis by (rule filter_sortTargets)
qed

lemma compareCodeUnits_neg: "compareCodeUnits b a = - compareCodeUnits a b"
  by (induction a b rule: compareCodeUnits.induct) auto

lemma compareCodeUnits_zero: "compareCodeUnits a b = 0 \<longleftrightarrow> a = b"
  by (induction a b rule: compareCodeUnits.induct) auto

lemma consistentOrder_collate: "consistentOrder collate"
  unfolding consistentOrder_def
proof (intro conjI allI impI)
  fix a b
  let ?p = "compareCodeUnits (map toLower a) (map toLower b)"
  have swapped: "compareCodeUnits (map toLower b) (map toLower a) = - ?p"
    by (rule compareCodeUnits_neg)
  show "collate a b \<le> 0 \<or> collate b a \<le> 0"
  proof (cases "?p = 0")
    case True
    with swapped have "collate a b = compareCodeUnits b a" "collate b a = compareCodeUnits a b"
      by (simp_all add: collate_def)
    with compareCodeUnits_total [of a b] show ?thesis by auto
  next
    case False
    with swapped have "collate a b = ?p" "collate b a = - ?p" by (simp_all add: collate_def)
    then show ?thesis by linarith
  qed
next
  fix a b c
  let ?ab = "compareCodeUnits (map toLower a) (map toLower b)"
  let ?bc = "compareCodeUnits (map toLower b) (map toLower c)"
  let ?ac = "compareCodeUnits (map toLower a) (map toLower c)"
  assume le: "collate a b \<le> 0 \<and> collate b c \<le> 0"
  then have ab: "?ab \<le> 0" and bc: "?bc \<le> 0"
    by (auto simp: collate_def split: if_splits)
  then have ac: "?ac \<le> 0" by (rule compareCodeUnits_trans)
  show "collate a c \<le> 0"
  proof (cases "?ac = 0")
    case False
    with ac show ?thesis by (simp add: collate_def)
  next
    case True
    then have same: "map toLower a = map toLower c" by (simp add: compareCodeUnits_zero)
    have "compareCodeUnits (map toLower b) (map toLower a) = - ?ab" by (rule compareCodeUnits_neg)
    with same have "?bc = - ?ab" by simp
    with ab bc have zero: "?ab = 0" "?bc = 0" by linarith+
    with le have "compareCodeUnits b a \<le> 0" "compareCodeUnits c b \<le> 0"
      by (simp_all add: collate_def)
    then have "compareCodeUnits c a \<le> 0"
      using compareCodeUnits_trans [of c b a] by simp
    with True show ?thesis by (simp add: collate_def)
  qed
qed

subsection \<open>The shape of the scanned targets\<close>

lemma shaped_noTargets: "shaped h noTargets"
  by (simp add: shaped_def noTargets_def)

lemma shaped_scanResource:
  "shaped h (fst st) \<Longrightarrow> shaped h (fst (scanResource h folderPath st resource))"
  by (auto simp: shaped_def scanResource_def Let_def)

lemma shaped_scanResources:
  "shaped h (fst st) \<Longrightarrow> shaped h (fst (foldl (scanResource h folderPath) st resources))"
  by (induction resources arbitrary: st) (simp_all add: shaped_scanResource)

lemma shaped_pushRootIf:
  "shaped h b \<Longrightarrow> workspaceKind t = Folder \<Longrightarrow> description t = ''All contained projects''
     \<Longrightarrow> target t = directory t \<Longrightarrow> shaped h (pushRootIf c t b)"
  by (simp add: shaped_def pushRootIf_def)

lemma shaped_pushOtherIf:
  "shaped h b \<Longrightarrow> workspaceKind t \<in> {Csx, Cake, Folder} \<Longrightarrow> target t = directory t
     \<Longrightarrow> (workspaceKind t = Folder \<longrightarrow> description t = []) \<Longrightarrow> shaped h (pushOtherIf c t b)"
  by (simp add: shaped_def pushOtherIf_def)

lemma shaped_scanFolder:
  assumes "shaped h b" and "scanFolder h workspaceFolders b entry = Inr b'"
  shows "shaped h b'"
proof -
  let ?path = "fsPath (uri (workspaceFolders ! fst entry))"
  have "shaped h (fst (foldl (scanResource h ?path) (b, noFlags) (snd entry)))"
    using assms(1) by (simp add: shaped_scanResources)
  then show ?thesis
    using assms(2) unfolding scanFolder_def Let_def
    by (auto split: if_splits intro!: shaped_pushOtherIf shaped_pushRootIf)
qed

lemma shaped_scanFolders:
  "shaped h b \<Longrightarrow> scanFolders h workspaceFolders b m = Inr b' \<Longrightarrow> shaped h b'"
proof (induction m arbitrary: b)
  case Nil
  then show ?case by simp
next
  case (Cons entry m)
  then show ?case
    by (auto split: sum.splits dest: shaped_scanFolder)
qed

lemma set_allTargets:
  "set (allTargets h b) =
     set (otherTargets b) \<union> set (solutionTargets b) \<union> set (projectRootTargets b)
       \<union> set (projectJsonTargets b) \<union> set (projectTargets b)"
  by (auto simp: allTargets_def set_sortTargets)

lemma shaped_member:
  assumes "shaped h b" and "t \<in> set (allTargets h b)"
  shows "workspaceKind t \<noteq> LiveShare
    \<and> (workspaceKind t \<noteq> Solution \<longrightarrow> target t = directory t)
    \<and> (workspaceKind t = Solution \<longrightarrow> directory t = dirname h (target t))"
  using assms unfolding set_allTargets shaped_def by auto

lemma classified_by_scan:
  assumes "resourcesAndFolderMapToLaunchTargets h resources workspaceFolders m k = Inr ts"
  shows "\<exists>b. scanFolders h workspaceFolders noTargets m = Inr b \<and> shaped h b
           \<and> ts = (if 0 < k then take (nat k) (allTargets h b) else allTargets h b)"
proof (cases "scanFolders h workspaceFolders noTargets m")
  case (Inl e)
  with assms show ?thesis by (simp add: resourcesAndFolderMapToLaunchTargets_def)
next
  case (Inr b)
  then have "shaped h b" using shaped_noTargets shaped_scanFolders by blast
  with assms Inr show ?thesis by (simp add: resourcesAndFolderMapToLaunchTargets_def)
qed

lemma classified_member:
  assumes "resourcesAndFolderMapToLaunchTargets h resources workspaceFolders m k = Inr ts" and "t \<in> set ts"
  shows "workspaceKind t \<noteq> LiveShare
    \<and> (workspaceKind t \<noteq> Solution \<longrightarrow> target t = directory t)
    \<and> (workspaceKind t = Solution \<longrightarrow> directory t = dirname h (target t))"
proof -
  from assms(1) obtain b where b: "shaped h b"
    "ts = (if 0 < k then take (nat k) (allTargets h b) else allTargets h b)"
    using classified_by_scan by blast
  from b(2) assms(2) have "t \<in> set (allTargets h b)"
    by (auto split: if_splits dest: in_set_takeD)
  with b(1) show ?thesis by (rule shaped_member)
qed

lemma otherTargets_scanResource:
  "otherTargets (fst (scanResource h folderPath st resource)) = otherTargets (fst st)"
  by (simp add: scanResource_def Let_def)

lemma otherTargets_scanResources:
  "otherTargets (fst (foldl (scanResource h folderPath) st resources)) = otherTargets (fst st)"
  by (induction resources arbitrary: st) (simp_all add: otherTargets_scanResource)

lemma otherTargets_pushRootIf: "otherTargets (pushRootIf c t b) = otherTargets b"
  by (simp add: pushRootIf_def)

lemma otherTargets_pushOtherIf: "\<exists>later. otherTargets (pushOtherIf c t b) = otherTargets b @ later"
  by (simp add: pushOtherIf_def)

lemma scanFolder_other_grows:
  assumes "scanFolder h workspaceFolders b entry = Inr b'"
  shows "\<exists>later. otherTargets b' = otherTargets b @ later"
proof -
  let ?path = "fsPath (uri (workspaceFolders ! fst entry))"
  let ?b1 = "fst (foldl (scanResource h ?path) (b, noFlags) (snd entry))"
  have b1: "otherTargets ?b1 = otherTargets b"
    by (simp add: otherTargets_scanResources)
  from assms obtain c2 t2 c3 t3 c4 t4 c5 t5
    where b': "b' = pushOtherIf c5 t5 (pushOtherIf c4 t4 (pushOtherIf c3 t3 (pushRootIf c2 t2 ?b1)))"
    unfolding scanFolder_def Let_def by (auto split: if_splits)
  obtain l3 where "otherTargets (pushOtherIf c3 t3 (pushRootIf c2 t2 ?b1)) = otherTargets b @ l3"
    using otherTargets_pushOtherIf [of c3 t3 "pushRootIf c2 t2 ?b1"] b1
    by (auto simp: otherTargets_pushRootIf)
  moreover obtain l4 where "otherTargets (pushOtherIf c4 t4 (pushOtherIf c3 t3 (pushRootIf c2 t2 ?b1)))
      = otherTargets (pushOtherIf c3 t3 (pushRootIf c2 t2 ?b1)) @ l4"
    using otherTargets_pushOtherIf by blast
  moreover obtain l5 where "otherTargets b'
      = otherTargets (pushOtherIf c4 t4 (pushOtherIf c3 t3 (pushRootIf c2 t2 ?b1))) @ l5"
    unfolding b' using otherTargets_pushOtherIf by blast
  ultimately have "otherTargets b' = otherTargets b @ (l3 @ l4 @ l5)" by simp
  then show ?thesis ..
qed

lemma scanFolders_other_grows:
  "scanFolders h workspaceFolders b m = Inr b' \<Longrightarrow> \<exists>later. otherTargets b' = otherTargets b @ later"
proof (induction m arbitrary: b)
  case Nil
  then show ?case by simp
next
  case (Cons entry m)
  from Cons.prems obtain b1 where b1: "scanFolder h workspaceFolders b entry = Inr b1"
    "scanFolders h workspaceFolders b1 m = Inr b'"
    by (auto split: sum.splits)
  from b1(1) obtain l1 where "otherTargets b1 = otherTargets b @ l1"
    using scanFolder_other_grows by blast
  moreover from b1(2) Cons.IH obtain l2 where "otherTargets b' = otherTargets b1 @ l2" by blast
  ultimately have "otherTargets b' = otherTargets b @ (l1 @ l2)" by simp
  then show ?case ..
qed

lemma scanFolders_append:
  "scanFolders h workspaceFolders b (m1 @ m2) =
     (case scanFolders h workspaceFolders b m1 of
        Inl e \<Rightarrow> Inl e
      | Inr b1 \<Rightarrow> scanFolders h workspaceFolders b1 m2)"
  by (induction m1 arbitrary: b) (auto split: sum.splits)

lemma discovery_order:
  assumes "scanFolders h workspaceFolders noTargets (m1 @ m2) = Inr b"
    and "scanFolders h workspaceFolders noTargets m1 = Inr b1"
  shows "\<exists>later. otherTargets b = otherTargets b1 @ later"
proof -
  from assms have "scanFolders h workspaceFolders b1 m2 = Inr b"
    by (simp add: scanFolders_append)
  then show ?thesis by (rule scanFolders_other_grows)
qed

subsection \<open>The targets returned\<close>

text \<open>
  Claim C10. In every list the classifier returns, a target whose kind is not
  \<open>Solution\<close> has its \<open>target\<close> equal to its \<open>directory\<close>, and a target of kind
  \<open>Solution\<close> has as \<open>directory\<close> the \<^verbatim>\<open>path.dirname\<close> of its \<open>target\<close>.
\<close>

theorem target_is_directory:
  assumes "resourcesToLaunchTargets h resources workspaceFolders maxProjectResults = Inr ts"
    and "t \<in> set ts"
  shows "(workspaceKind t \<noteq> Solution \<longrightarrow> target t = directory t)
    \<and> (workspaceKind t = Solution \<longrightarrow> directory t = dirname h (target t))"
proof -
  let ?local = "filter (\<lambda>resource. scheme resource \<notin> disabledSchemes) resources"
  consider "resources = []" | "resources \<noteq> []" "?local = []" | "resources \<noteq> []" "?local \<noteq> []"
    by blast
  then show ?thesis
  proof cases
    case 1
    with assms show ?thesis by (simp add: resourcesToLaunchTargets_def)
  next
    case 2
    with assms have "t = vslsTarget" by (auto simp: resourcesToLaunchTargets_def)
    then show ?thesis by (simp add: vslsTarget_def)
  next
    case 3
    with assms(1) have "resourcesAndFolderMapToLaunchTargets h resources workspaceFolders
        (foldl (groupResource h) [] ?local) maxProjectResults = Inr ts"
      by (simp add: resourcesToLaunchTargets_def)
    with assms(2) show ?thesis using classified_member by blast
  qed
qed

text \<open>
  The claim at a solution file and a script in one folder.
\<close>

theorem target_is_directory_witness:
  "directory \<lparr>label = ''A.sln'', description = ''/a'', directory = ''/a'', target = ''/a/A.sln'',
        workspaceKind = Solution\<rparr>
     = dirname (exampleHost twoFolders) ''/a/A.sln''
   \<and> target \<lparr>label = ''CSX'', description = ''a'', directory = ''/a'', target = ''/a'', workspaceKind = Csx\<rparr>
     = ''/a''"
proof -
  let ?sol = "\<lparr>label = ''A.sln'', description = ''/a'', directory = ''/a'', target = ''/a/A.sln'',
        workspaceKind = Solution\<rparr>"
  let ?csx = "\<lparr>label = ''CSX'', description = ''a'', directory = ''/a'', target = ''/a'', workspaceKind = Csx\<rparr>"
  have run: "resourcesToLaunchTargets (exampleHost twoFolders) [fileUri ''/a/A.sln'', fileUri ''/a/run.csx'']
      twoFolders 0 = Inr [?csx, ?sol]"
    by code_simp
  have "?sol \<in> set [?csx, ?sol]" by simp
  with run have s: "(workspaceKind ?sol \<noteq> Solution \<longrightarrow> target ?sol = directory ?sol)
    \<and> (workspaceKind ?sol = Solution \<longrightarrow> directory ?sol = dirname (exampleHost twoFolders) (target ?sol))"
    by (rule target_is_directory)
  have "?csx \<in> set [?csx, ?sol]" by simp
  with run have c: "(workspaceKind ?csx \<noteq> Solution \<longrightarrow> target ?csx = directory ?csx)
    \<and> (workspaceKind ?csx = Solution \<longrightarrow> directory ?csx = dirname (exampleHost twoFolders) (target ?csx))"
    by (rule target_is_directory)
  from s c show ?thesis by simp
qed

text \<open>
  Claim C4. The classifier returns the empty list for an empty resource list, and it
  returns exactly the live-share sentinel if and only if the resource list is not empty
  and every resource has a disabled scheme.
\<close>

theorem liveShare_sentinel:
  "resourcesToLaunchTargets h [] workspaceFolders maxProjectResults = Inr []
   \<and> (resourcesToLaunchTargets h resources workspaceFolders maxProjectResults = Inr [vslsTarget]
        \<longleftrightarrow> resources \<noteq> [] \<and> (\<forall>resource \<in> set resources. scheme resource \<in> disabledSchemes))"
proof
  show "resourcesToLaunchTargets h [] workspaceFolders maxProjectResults = Inr []"
    by (simp add: resourcesToLaunchTargets_def)
next
  let ?local = "filter (\<lambda>resource. scheme resource \<notin> disabledSchemes) resources"
  have local: "?local = [] \<longleftrightarrow> (\<forall>resource \<in> set resources. scheme resource \<in> disabledSchemes)"
    by (simp add: filter_empty_conv)
  show "resourcesToLaunchTargets h resources workspaceFolders maxProjectResults = Inr [vslsTarget]
        \<longleftrightarrow> resources \<noteq> [] \<and> (\<forall>resource \<in> set resources. scheme resource \<in> disabledSchemes)"
  proof (cases "resources = []")
    case True
    then show ?thesis by (simp add: resourcesToLaunchTargets_def)
  next
    case False
    show ?thesis
    proof (cases "?local = []")
      case True
      with False local show ?thesis by (simp add: resourcesToLaunchTargets_def)
    next
      case nonempty: False
      have "resourcesToLaunchTargets h resources workspaceFolders maxProjectResults \<noteq> Inr [vslsTarget]"
      proof
        assume "resourcesToLaunchTargets h resources workspaceFolders maxProjectResults = Inr [vslsTarget]"
        with False nonempty
        have "resourcesAndFolderMapToLaunchTargets h resources workspaceFolders
            (foldl (groupResource h) [] ?local) maxProjectResults = Inr [vslsTarget]"
          by (simp add: resourcesToLaunchTargets_def)
        then have "workspaceKind vslsTarget \<noteq> LiveShare"
          using classified_member [of h resources workspaceFolders _ maxProjectResults "[vslsTarget]" vslsTarget]
          by simp
        then show False by (simp add: vslsTarget_def)
      qed
      with nonempty local show ?thesis by blast
    qed
  qed
qed

text \<open>
  Two live-share resources give the sentinel.
\<close>

theorem liveShare_sentinel_witness:
  "resourcesToLaunchTargets (exampleHost twoFolders) [vslsUri ''/x/A.sln'', vslsUri ''/x/B.csproj''] twoFolders 3
     = Inr [vslsTarget]"
proof -
  have "[vslsUri ''/x/A.sln'', vslsUri ''/x/B.csproj''] \<noteq> []
      \<and> (\<forall>resource \<in> set [vslsUri ''/x/A.sln'', vslsUri ''/x/B.csproj'']. scheme resource \<in> disabledSchemes)"
    by (simp add: vslsUri_def disabledSchemes_def vsls_def)
  then show ?thesis
    by (rule iffD2 [OF conjunct2 [OF liveShare_sentinel]])
qed

subsection \<open>Order and truncation\<close>

text \<open>
  Claim C9. A positive \<^verbatim>\<open>maxProjectResults\<close> gives the first that many entries of the
  list returned without a limit (all of them when there are fewer); zero or a negative
  number gives that list unchanged. A thrown error is the same with and without a limit.
\<close>

theorem maxProjectResults_truncates:
  "(resourcesToLaunchTargets h resources workspaceFolders 0 = Inr every \<longrightarrow>
      resourcesToLaunchTargets h resources workspaceFolders maxProjectResults
        = Inr (if 0 < maxProjectResults then take (nat maxProjectResults) every else every))
   \<and> (resourcesToLaunchTargets h resources workspaceFolders 0 = Inl e \<longrightarrow>
      resourcesToLaunchTargets h resources workspaceFolders maxProjectResults = Inl e)"
proof -
  have one: "0 < maxProjectResults \<Longrightarrow> take (nat maxProjectResults) [vslsTarget] = [vslsTarget]"
    by (cases "nat maxProjectResults") simp_all
  show ?thesis
    unfolding resourcesToLaunchTargets_def resourcesAndFolderMapToLaunchTargets_def Let_def
    using one by (auto split: sum.splits)
qed

text \<open>
  Four targets truncated to three.
\<close>

theorem maxProjectResults_truncates_witness:
  "resourcesToLaunchTargets (exampleHost twoFolders)
      [fileUri ''/b/B.sln'', fileUri ''/b/run.csx'', fileUri ''/a/A.sln'', fileUri ''/a/build.cake''] twoFolders 3
     = Inr [\<lparr>label = ''CSX'', description = ''b'', directory = ''/b'', target = ''/b'', workspaceKind = Csx\<rparr>,
            \<lparr>label = ''Cake'', description = ''a'', directory = ''/a'', target = ''/a'', workspaceKind = Cake\<rparr>,
            \<lparr>label = ''A.sln'', description = ''/a'', directory = ''/a'', target = ''/a/A.sln'',
              workspaceKind = Solution\<rparr>]"
proof -
  let ?every = "[\<lparr>label = ''CSX'', description = ''b'', directory = ''/b'', target = ''/b'', workspaceKind = Csx\<rparr>,
            \<lparr>label = ''Cake'', description = ''a'', directory = ''/a'', target = ''/a'', workspaceKind = Cake\<rparr>,
            \<lparr>label = ''A.sln'', description = ''/a'', directory = ''/a'', target = ''/a/A.sln'',
              workspaceKind = Solution\<rparr>,
            \<lparr>label = ''B.sln'', description = ''/b'', directory = ''/b'', target = ''/b/B.sln'',
              workspaceKind = Solution\<rparr>]"
  have "resourcesToLaunchTargets (exampleHost twoFolders)
      [fileUri ''/b/B.sln'', fileUri ''/b/run.csx'', fileUri ''/a/A.sln'', fileUri ''/a/build.cake''] twoFolders 0
     = Inr ?every"
    by code_simp
  then have "resourcesToLaunchTargets (exampleHost twoFolders)
      [fileUri ''/b/B.sln'', fileUri ''/b/run.csx'', fileUri ''/a/A.sln'', fileUri ''/a/build.cake''] twoFolders 3
     = Inr (if 0 < (3::int) then take (nat 3) ?every else ?every)"
    by (rule mp [OF conjunct1 [OF maxProjectResults_truncates], rotated])
  then show ?thesis by simp
qed

text \<open>
  Claim C5, as amended. Without truncation the result is the other-targets array as the
  scan left it, followed by the solution, root-folder, project.json and project arrays,
  each a rearrangement of what the scan pushed, holding targets of its own kind only and
  sorted by \<open>directory\<close> in the ascending order of \<^verbatim>\<open>localeCompare\<close>, a
  consistent order that need not be the lexicographic order of the code units; targets
  with the same directory keep the order in which they were pushed. The other-targets
  array is never rearranged: what the folders of any initial part of the map pushed
  stays in front of what later folders push.
\<close>

theorem final_order:
  assumes "consistentOrder (localeCompare h)"
    and "scanFolders h workspaceFolders noTargets m = Inr b"
    and "maxProjectResults \<le> 0"
  shows "\<exists>S R J P.
      resourcesAndFolderMapToLaunchTargets h resources workspaceFolders m maxProjectResults
        = Inr (otherTargets b @ S @ R @ J @ P)
      \<and> mset S = mset (solutionTargets b) \<and> sortedByDirectory h S
      \<and> (\<forall>t \<in> set S. workspaceKind t = Solution)
      \<and> mset R = mset (projectRootTargets b) \<and> sortedByDirectory h R
      \<and> (\<forall>t \<in> set R. workspaceKind t = Folder \<and> description t = ''All contained projects'')
      \<and> mset J = mset (projectJsonTargets b) \<and> sortedByDirectory h J
      \<and> (\<forall>t \<in> set J. workspaceKind t = ProjectJson)
      \<and> mset P = mset (projectTargets b) \<and> sortedByDirectory h P
      \<and> (\<forall>t \<in> set P. workspaceKind t = Project)
      \<and> (\<forall>t \<in> set (otherTargets b).
            workspaceKind t \<in> {Csx, Cake, Folder} \<and> (workspaceKind t = Folder \<longrightarrow> description t = []))
      \<and> (\<forall>m1 m2 b1. m = m1 @ m2 \<and> scanFolders h workspaceFolders noTargets m1 = Inr b1 \<longrightarrow>
            (\<exists>later. otherTargets b = otherTargets b1 @ later))
      \<and> (\<forall>d. filter (\<lambda>t. directory t = d) S = filter (\<lambda>t. directory t = d) (solutionTargets b)
            \<and> filter (\<lambda>t. directory t = d) R = filter (\<lambda>t. directory t = d) (projectRootTargets b)
            \<and> filter (\<lambda>t. directory t = d) J = filter (\<lambda>t. directory t = d) (projectJsonTargets b)
            \<and> filter (\<lambda>t. directory t = d) P = filter (\<lambda>t. directory t = d) (projectTargets b))"
proof -
  let ?S = "sortTargets (byDirectory h) (solutionTargets b)"
  let ?R = "sortTargets (byDirectory h) (projectRootTargets b)"
  let ?J = "sortTargets (byDirectory h) (projectJsonTargets b)"
  let ?P = "sortTargets (byDirectory h) (projectTargets b)"
  have shaped: "shaped h b"
    using assms(2) shaped_noTargets shaped_scanFolders by blast
  have out: "resourcesAndFolderMapToLaunchTargets h resources workspaceFolders m maxProjectResults
        = Inr (otherTargets b @ ?S @ ?R @ ?J @ ?P)"
    using assms(2,3) by (simp add: resourcesAndFolderMapToLaunchTargets_def allTargets_def)
  have sorted: "sortedByDirectory h ?S" "sortedByDirectory h ?R" "sortedByDirectory h ?J"
    "sortedByDirectory h ?P"
    using assms(1) by (simp_all add: sortedByDirectory_sortTargets)
  have msets: "mset ?S = mset (solutionTargets b)" "mset ?R = mset (projectRootTargets b)"
    "mset ?J = mset (projectJsonTargets b)" "mset ?P = mset (projectTargets b)"
    by (simp_all add: mset_sortTargets)
  have kinds: "\<forall>t \<in> set ?S. workspaceKind t = Solution"
    "\<forall>t \<in> set ?R. workspaceKind t = Folder \<and> description t = ''All contained projects''"
    "\<forall>t \<in> set ?J. workspaceKind t = ProjectJson"
    "\<forall>t \<in> set ?P. workspaceKind t = Project"
    "\<forall>t \<in> set (otherTargets b).
        workspaceKind t \<in> {Csx, Cake, Folder} \<and> (workspaceKind t = Folder \<longrightarrow> description t = [])"
    using shaped unfolding shaped_def set_sortTargets by blast+
  have order: "\<forall>m1 m2 b1. m = m1 @ m2 \<and> scanFolders h workspaceFolders noTargets m1 = Inr b1 \<longrightarrow>
            (\<exists>later. otherTargets b = otherTargets b1 @ later)"
    using assms(2) discovery_order by blast
  have stable: "\<forall>d. filter (\<lambda>t. directory t = d) ?S = filter (\<lambda>t. directory t = d) (solutionTargets b)
            \<and> filter (\<lambda>t. directory t = d) ?R = filter (\<lambda>t. directory t = d) (projectRootTargets b)
            \<and> filter (\<lambda>t. directory t = d) ?J = filter (\<lambda>t. directory t = d) (projectJsonTargets b)
            \<and> filter (\<lambda>t. directory t = d) ?P = filter (\<lambda>t. directory t = d) (projectTargets b)"
    by (simp add: same_directory_stable [OF assms(1)])
  show ?thesis
    apply (rule exI [of _ ?S])
    apply (rule exI [of _ ?R])
    apply (rule exI [of _ ?J])
    apply (rule exI [of _ ?P])
    apply (intro conjI)
    apply (rule out sorted msets kinds order stable)+
    done
qed

text \<open>
  Two folders discovered in the order \<^verbatim>\<open>/b\<close>, \<^verbatim>\<open>/a\<close>: the other targets keep
  that order, the solutions are sorted.
\<close>

theorem final_order_witness:
  "\<exists>S. resourcesAndFolderMapToLaunchTargets (exampleHost twoFolders) [] twoFolders exampleMap 0
          = Inr (otherTargets exampleScan @ S)
      \<and> mset S = mset (solutionTargets exampleScan)
      \<and> sortedByDirectory (exampleHost twoFolders) S"
proof -
  have order: "consistentOrder (localeCompare (exampleHost twoFolders))"
    by (simp add: exampleHost_def consistentOrder_compareCodeUnits)
  have scan: "scanFolders (exampleHost twoFolders) twoFolders noTargets exampleMap = Inr exampleScan"
    by code_simp
  have untruncated: "(0::int) \<le> 0" by simp
  have "\<exists>S R J P.
      resourcesAndFolderMapToLaunchTargets (exampleHost twoFolders) [] twoFolders exampleMap 0
        = Inr (otherTargets exampleScan @ S @ R @ J @ P)
      \<and> mset S = mset (solutionTargets exampleScan) \<and> sortedByDirectory (exampleHost twoFolders) S
      \<and> mset R = mset (projectRootTargets exampleScan) \<and> mset J = mset (projectJsonTargets exampleScan)
      \<and> mset P = mset (projectTargets exampleScan)"
    using final_order [OF order scan untruncated, of "[]"]
    apply (elim exE conjE)
    apply (intro exI conjI)
         apply assumption+
    done
  then obtain S R J P where
    out: "resourcesAndFolderMapToLaunchTargets (exampleHost twoFolders) [] twoFolders exampleMap 0
        = Inr (otherTargets exampleScan @ S @ R @ J @ P)"
    and S: "mset S = mset (solutionTargets exampleScan)" "sortedByDirectory (exampleHost twoFolders) S"
    and rest: "mset R = mset (projectRootTargets exampleScan)" "mset J = mset (projectJsonTargets exampleScan)"
      "mset P = mset (projectTargets exampleScan)"
    by blast
  from rest have "R = []" "J = []" "P = []" by (simp_all add: exampleScan_def)
  with out S show ?thesis by auto
qed

text \<open>
  Claim C5, as stated, has the arrays in ascending lexicographic order. With a
  \<^verbatim>\<open>localeCompare\<close> that puts a lower-case letter before its upper-case letter, as
  the default collation does, the solution in \<^verbatim>\<open>/a/b\<close> comes before the one in
  \<^verbatim>\<open>/a/B\<close>, against the order of the code units.
\<close>

theorem final_order_counterexample:
  "resourcesToLaunchTargets (collatingHost twoFolders)
       [fileUri ''/a/B/App.sln'', fileUri ''/a/b/App.sln''] twoFolders 0
     = Inr [\<lparr>label = ''App.sln'', description = ''/a/b'', directory = ''/a/b'', target = ''/a/b/App.sln'',
              workspaceKind = Solution\<rparr>,
            \<lparr>label = ''App.sln'', description = ''/a/B'', directory = ''/a/B'', target = ''/a/B/App.sln'',
              workspaceKind = Solution\<rparr>]
   \<and> \<not> ascendingLexicographic
        [\<lparr>label = ''App.sln'', description = ''/a/b'', directory = ''/a/b'', target = ''/a/b/App.sln'',
              workspaceKind = Solution\<rparr>,
         \<lparr>label = ''App.sln'', description = ''/a/B'', directory = ''/a/B'', target = ''/a/B/App.sln'',
              workspaceKind = Solution\<rparr>]"
  by code_simp

subsection \<open>Per-folder rules across several folders\<close>

text \<open>
  What one folder adds to the root-folder array and to the other-targets array, from any
  state of the five arrays. The conditions on solution, project and project.json files
  hold as soon as an earlier folder has pushed such a target; started from empty arrays
  they are conditions on the folder's own resources.
\<close>

lemma scanResource_buckets:
  "solutionTargets (fst (scanResource h p st r)) \<noteq> [] \<longleftrightarrow>
     solutionTargets (fst st) \<noteq> [] \<or> isSolution r"
  "projectJsonTargets (fst (scanResource h p st r)) \<noteq> [] \<longleftrightarrow>
     projectJsonTargets (fst st) \<noteq> [] \<or> (\<not> isSolution r \<and> isProjectJson r)"
  "projectTargets (fst (scanResource h p st r)) \<noteq> [] \<longleftrightarrow>
     projectTargets (fst st) \<noteq> [] \<or> (\<not> isSolution r \<and> \<not> isProjectJson r \<and> isCSharpProject r)"
  "projectRootTargets (fst (scanResource h p st r)) = projectRootTargets (fst st)"
  "hasProjectJsonAtRoot (snd (scanResource h p st r)) \<longleftrightarrow>
     hasProjectJsonAtRoot (snd st) \<or> (\<not> isSolution r \<and> isProjectJson r \<and> dirname h (fsPath r) = p)"
  "hasCs (snd (scanResource h p st r)) \<longleftrightarrow>
     hasCs (snd st) \<or> (\<not> isSolution r \<and> \<not> isProjectJson r \<and> \<not> isCSharpProject r \<and> isCs r)"
  "hasCSX (snd (scanResource h p st r)) \<longleftrightarrow>
     hasCSX (snd st) \<or> (\<not> isSolution r \<and> \<not> isProjectJson r \<and> \<not> isCSharpProject r \<and> isCsx r)"
  "hasCake (snd (scanResource h p st r)) \<longleftrightarrow>
     hasCake (snd st) \<or> (\<not> isSolution r \<and> \<not> isProjectJson r \<and> \<not> isCSharpProject r \<and> isCake r)"
  by (simp_all add: scanResource_def Let_def)

lemma scanResources_buckets:
  "solutionTargets (fst (foldl (scanResource h p) st rs)) \<noteq> [] \<longleftrightarrow>
     solutionTargets (fst st) \<noteq> [] \<or> list_ex isSolution rs"
  "projectJsonTargets (fst (foldl (scanResource h p) st rs)) \<noteq> [] \<longleftrightarrow>
     projectJsonTargets (fst st) \<noteq> [] \<or> list_ex (\<lambda>r. \<not> isSolution r \<and> isProjectJson r) rs"
  "projectTargets (fst (foldl (scanResource h p) st rs)) \<noteq> [] \<longleftrightarrow>
     projectTargets (fst st) \<noteq> []
     \<or> list_ex (\<lambda>r. \<not> isSolution r \<and> \<not> isProjectJson r \<and> isCSharpProject r) rs"
  "projectRootTargets (fst (foldl (scanResource h p) st rs)) = projectRootTargets (fst st)"
  "hasProjectJsonAtRoot (snd (foldl (scanResource h p) st rs)) \<longleftrightarrow>
     hasProjectJsonAtRoot (snd st)
     \<or> list_ex (\<lambda>r. \<not> isSolution r \<and> isProjectJson r \<and> dirname h (fsPath r) = p) rs"
  "hasCs (snd (foldl (scanResource h p) st rs)) \<longleftrightarrow>
     hasCs (snd st)
     \<or> list_ex (\<lambda>r. \<not> isSolution r \<and> \<not> isProjectJson r \<and> \<not> isCSharpProject r \<and> isCs r) rs"
  "hasCSX (snd (foldl (scanResource h p) st rs)) \<longleftrightarrow>
     hasCSX (snd st)
     \<or> list_ex (\<lambda>r. \<not> isSolution r \<and> \<not> isProjectJson r \<and> \<not> isCSharpProject r \<and> isCsx r) rs"
  "hasCake (snd (foldl (scanResource h p) st rs)) \<longleftrightarrow>
     hasCake (snd st)
     \<or> list_ex (\<lambda>r. \<not> isSolution r \<and> \<not> isProjectJson r \<and> \<not> isCSharpProject r \<and> isCake r) rs"
proof (induction rs arbitrary: st)
  case Nil
  {
    case 1 show ?case by simp
  next
    case 2 show ?case by simp
  next
    case 3 show ?case by simp
  next
    case 4 show ?case by simp
  next
    case 5 show ?case by simp
  next
    case 6 show ?case by simp
  next
    case 7 show ?case by simp
  next
    case 8 show ?case by simp
  }
next
  case (Cons r rs)
  {
    case 1 show ?case by (simp add: Cons.IH(1) scanResource_buckets(1) disj_assoc)
  next
    case 2 show ?case by (simp add: Cons.IH(2) scanResource_buckets(2) disj_assoc)
  next
    case 3 show ?case by (simp add: Cons.IH(3) scanResource_buckets(3) disj_assoc)
  next
    case 4 show ?case by (simp add: Cons.IH(4) scanResource_buckets(4))
  next
    case 5 show ?case by (simp add: Cons.IH(5) scanResource_buckets(5) disj_assoc)
  next
    case 6 show ?case by (simp add: Cons.IH(6) scanResource_buckets(6) disj_assoc)
  next
    case 7 show ?case by (simp add: Cons.IH(7) scanResource_buckets(7) disj_assoc)
  next
    case 8 show ?case by (simp add: Cons.IH(8) scanResource_buckets(8) disj_assoc)
  }
qed


lemma scanFolder_rules:
  assumes "i < length workspaceFolders"
  shows "\<exists>b. scanFolder h workspaceFolders b0 (i, rs) = Inr b
    \<and> projectRootTargets b = projectRootTargets b0 @
        (if ((projectTargets b0 \<noteq> []
                \<or> list_ex (\<lambda>r. \<not> isSolution r \<and> \<not> isProjectJson r \<and> isCSharpProject r) rs)
              \<and> \<not> (solutionTargets b0 \<noteq> [] \<or> list_ex isSolution rs))
            \<or> ((projectJsonTargets b0 \<noteq> [] \<or> list_ex (\<lambda>r. \<not> isSolution r \<and> isProjectJson r) rs)
              \<and> \<not> list_ex (\<lambda>r. \<not> isSolution r \<and> isProjectJson r
                    \<and> dirname h (fsPath r) = fsPath (uri (workspaceFolders ! i))) rs)
         then [\<lparr>label = basename h (fsPath (uri (workspaceFolders ! i))),
                description = ''All contained projects'',
                directory = fsPath (uri (workspaceFolders ! i)),
                target = fsPath (uri (workspaceFolders ! i)), workspaceKind = Folder\<rparr>]
         else [])
    \<and> otherTargets b = otherTargets b0 @
        (if list_ex (\<lambda>r. \<not> isSolution r \<and> \<not> isProjectJson r \<and> \<not> isCSharpProject r \<and> isCsx r) rs
         then [\<lparr>label = ''CSX'', description = basename h (fsPath (uri (workspaceFolders ! i))),
                directory = fsPath (uri (workspaceFolders ! i)),
                target = fsPath (uri (workspaceFolders ! i)), workspaceKind = Csx\<rparr>]
         else []) @
        (if list_ex (\<lambda>r. \<not> isSolution r \<and> \<not> isProjectJson r \<and> \<not> isCSharpProject r \<and> isCake r) rs
         then [\<lparr>label = ''Cake'', description = basename h (fsPath (uri (workspaceFolders ! i))),
                directory = fsPath (uri (workspaceFolders ! i)),
                target = fsPath (uri (workspaceFolders ! i)), workspaceKind = Cake\<rparr>]
         else []) @
        (if list_ex (\<lambda>r. \<not> isSolution r \<and> \<not> isProjectJson r \<and> \<not> isCSharpProject r \<and> isCs r) rs
            \<and> \<not> (solutionTargets b0 \<noteq> [] \<or> list_ex isSolution rs)
            \<and> \<not> (projectTargets b0 \<noteq> []
                \<or> list_ex (\<lambda>r. \<not> isSolution r \<and> \<not> isProjectJson r \<and> isCSharpProject r) rs)
            \<and> \<not> (projectJsonTargets b0 \<noteq> [] \<or> list_ex (\<lambda>r. \<not> isSolution r \<and> isProjectJson r) rs)
         then [\<lparr>label = basename h (fsPath (uri (workspaceFolders ! i))), description = [],
                directory = fsPath (uri (workspaceFolders ! i)),
                target = fsPath (uri (workspaceFolders ! i)), workspaceKind = Folder\<rparr>]
         else [])"
proof -
  let ?p = "fsPath (uri (workspaceFolders ! i))"
  let ?st = "foldl (scanResource h ?p) (b0, noFlags) rs"
  have flags: "\<not> hasProjectJsonAtRoot noFlags" "\<not> hasCs noFlags" "\<not> hasCSX noFlags" "\<not> hasCake noFlags"
    by (simp_all add: noFlags_def)
  note scanned = scanResources_buckets [of h ?p "(b0, noFlags)" rs, simplified fst_conv snd_conv]
  have atRoot: "list_ex (\<lambda>r. \<not> isSolution r \<and> isProjectJson r \<and> dirname h (fsPath r) = ?p) rs
      \<Longrightarrow> list_ex (\<lambda>r. \<not> isSolution r \<and> isProjectJson r) rs"
    by (auto simp: list_ex_iff)
  show ?thesis
    unfolding scanFolder_def Let_def fst_conv snd_conv
    using assms atRoot
    by (simp add: pushRootIf_def pushOtherIf_def scanned flags otherTargets_scanResources; blast)
qed

text \<open>
  Claim C1 fails on the code. The root-folder rule reads the lengths of the arrays that
  all folders share. With a project file in \<^verbatim>\<open>/a\<close> and only a source file in
  \<^verbatim>\<open>/b\<close>, folder \<^verbatim>\<open>/b\<close> gets an \<^verbatim>\<open>All contained projects\<close> target although it
  holds no project file; with a solution in \<^verbatim>\<open>/a\<close> and a project file in
  \<^verbatim>\<open>/b\<close>, folder \<^verbatim>\<open>/b\<close> gets none although it holds a project file and no solution.
\<close>

theorem rootFolder_rule_accumulated:
  "resourcesToLaunchTargets (exampleHost twoFolders) [fileUri ''/a/App.csproj'', fileUri ''/b/x.cs''] twoFolders 0
     = Inr [\<lparr>label = ''a'', description = ''All contained projects'', directory = ''/a'', target = ''/a'',
              workspaceKind = Folder\<rparr>,
            \<lparr>label = ''b'', description = ''All contained projects'', directory = ''/b'', target = ''/b'',
              workspaceKind = Folder\<rparr>,
            \<lparr>label = ''App.csproj'', description = ''/a'', directory = ''/a'', target = ''/a'',
              workspaceKind = Project\<rparr>]
   \<and> resourcesToLaunchTargets (exampleHost twoFolders) [fileUri ''/a/App.sln'', fileUri ''/b/lib/B.csproj''] twoFolders 0
     = Inr [\<lparr>label = ''App.sln'', description = ''/a'', directory = ''/a'', target = ''/a/App.sln'',
              workspaceKind = Solution\<rparr>,
            \<lparr>label = ''B.csproj'', description = ''/b/lib'', directory = ''/b/lib'', target = ''/b/lib'',
              workspaceKind = Project\<rparr>]"
  by code_simp

text \<open>
  Claim C8 fails on the code, for the same reason. With a solution in \<^verbatim>\<open>/a\<close> and
  only a source file in \<^verbatim>\<open>/b\<close>, folder \<^verbatim>\<open>/b\<close> gets no folder target, although
  alone it gets one.
\<close>

theorem looseFolder_rule_accumulated:
  "resourcesToLaunchTargets (exampleHost twoFolders) [fileUri ''/a/App.sln'', fileUri ''/b/x.cs''] twoFolders 0
     = Inr [\<lparr>label = ''App.sln'', description = ''/a'', directory = ''/a'', target = ''/a/App.sln'',
              workspaceKind = Solution\<rparr>]
   \<and> resourcesToLaunchTargets (exampleHost twoFolders) [fileUri ''/b/x.cs''] twoFolders 0
     = Inr [\<lparr>label = ''b'', description = [], directory = ''/b'', target = ''/b'', workspaceKind = Folder\<rparr>]"
  by code_simp

section \<open>The process launcher\<close>

subsection \<open>Argument vectors\<close>

lemma endsWith_iff: "endsWith s suffix \<longleftrightarrow> (\<exists>pre. s = pre @ suffix)"
proof
  assume "endsWith s suffix"
  then have "s = take (length s - length suffix) s @ suffix"
    by (metis append_take_drop_id endsWith_def)
  then show "\<exists>pre. s = pre @ suffix" ..
next
  assume "\<exists>pre. s = pre @ suffix"
  then show "endsWith s suffix" by (auto simp: endsWith_def)
qed

text \<open>
  Claim C7. On the managed-runtime path \<^verbatim>\<open>launchDotnet\<close>, once the resolver has
  answered, calls \<^verbatim>\<open>spawn\<close> once and returns its process (a failing resolver
  or a throwing \<^verbatim>\<open>spawn\<close> is the failure of the launch). A launch path that does
  not end in \<^verbatim>\<open>.dll\<close> is itself the spawned command and the arguments are passed
  unchanged; a launch path that ends in \<^verbatim>\<open>.dll\<close> is spawned through
  \<^verbatim>\<open>dotnet.exe\<close> on Windows and \<^verbatim>\<open>dotnet\<close> elsewhere, with the path as first
  argument ahead of the original ones.
\<close>

theorem launchDotnet_command:
  "(dotnetResolver options = Inr dotnetInfo \<longrightarrow>
      launchDotnet sys launchPath dir arguments platformInfo options dotnetResolver =
        (case spawn sys (dotnetSpawnCall launchPath dir arguments platformInfo dotnetInfo) of
           Inl reason \<Rightarrow> Inl reason
         | Inr p \<Rightarrow> Inr \<lparr>process = p, command = launchPath, hostIsMono = False,
                         hostVersion = Some (version dotnetInfo), hostPath = Some (path dotnetInfo)\<rparr>))
   \<and> (dotnetResolver options = Inl reason \<longrightarrow>
      launchDotnet sys launchPath dir arguments platformInfo options dotnetResolver = Inl reason)
   \<and> (\<not> (\<exists>pre. launchPath = pre @ ''.dll'') \<longrightarrow>
      spawnCommand (dotnetSpawnCall launchPath dir arguments platformInfo dotnetInfo) = launchPath
      \<and> spawnArgs (dotnetSpawnCall launchPath dir arguments platformInfo dotnetInfo) = arguments)
   \<and> ((\<exists>pre. launchPath = pre @ ''.dll'') \<longrightarrow>
      spawnCommand (dotnetSpawnCall launchPath dir arguments platformInfo dotnetInfo)
         = (if isWindows platformInfo then ''dotnet.exe'' else ''dotnet'')
      \<and> spawnArgs (dotnetSpawnCall launchPath dir arguments platformInfo dotnetInfo) = launchPath # arguments)
   \<and> spawnOptions (dotnetSpawnCall launchPath dir arguments platformInfo dotnetInfo)
        = \<lparr>detached = False, cwd = dir, env = Some (hostEnv dotnetInfo), windowsVerbatimArguments = False\<rparr>"
  unfolding endsWith_iff [symmetric]
  by (simp add: launchDotnet_def dotnetSpawnCall_def unshift_def Let_def)

text \<open>
  The two cases at an assembly path and at a self-contained executable, on Linux, with
  a \<^verbatim>\<open>spawn\<close> that accepts the expected command line only.
\<close>

theorem launchDotnet_command_witness:
  "launchDotnet (systemExpecting ''dotnet'' [''/opt/OmniSharp.dll'', ''-s''] [SpawnEvent] 0)
      ''/opt/OmniSharp.dll'' ''/work'' [''-s''] linux modernOptions dotnetResolverExample
     = Inr \<lparr>process = \<lparr>pid = Some 4711, events = [SpawnEvent], missed = 0\<rparr>,
            command = ''/opt/OmniSharp.dll'', hostIsMono = False, hostVersion = Some ''6.0.100'',
            hostPath = Some ''/usr/bin/dotnet''\<rparr>
   \<and> launchDotnet (systemExpecting ''/opt/OmniSharp'' [''-s''] [SpawnEvent] 0)
      ''/opt/OmniSharp'' ''/work'' [''-s''] linux modernOptions dotnetResolverExample
     = Inr \<lparr>process = \<lparr>pid = Some 4711, events = [SpawnEvent], missed = 0\<rparr>,
            command = ''/opt/OmniSharp'', hostIsMono = False, hostVersion = Some ''6.0.100'',
            hostPath = Some ''/usr/bin/dotnet''\<rparr>"
proof -
  let ?info = "\<lparr>version = ''6.0.100'', path = ''/usr/bin/dotnet'', hostEnv = []\<rparr>"
  have resolved: "dotnetResolverExample modernOptions = Inr ?info"
    by (simp add: dotnetResolverExample_def)
  have dll: "\<exists>pre. ''/opt/OmniSharp.dll'' = pre @ ''.dll''"
    by (rule exI [of _ "''/opt/OmniSharp''"]) simp
  have "\<not> endsWith ''/opt/OmniSharp'' ''.dll''" by (simp add: endsWith_def)
  then have exe: "\<not> (\<exists>pre. ''/opt/OmniSharp'' = pre @ ''.dll'')" unfolding endsWith_iff .
  have nw: "(if isWindows linux then ''dotnet.exe'' else ''dotnet'') = ''dotnet''" by (simp add: linux_def)
  note r1 = launchDotnet_command [where dotnetResolver = dotnetResolverExample and options = modernOptions
      and dotnetInfo = ?info and launchPath = "''/opt/OmniSharp.dll''" and dir = "''/work''"
      and arguments = "[''-s'']" and platformInfo = linux
      and sys = "systemExpecting ''dotnet'' [''/opt/OmniSharp.dll'', ''-s''] [SpawnEvent] 0"]
  note r2 = launchDotnet_command [where dotnetResolver = dotnetResolverExample and options = modernOptions
      and dotnetInfo = ?info and launchPath = "''/opt/OmniSharp''" and dir = "''/work''"
      and arguments = "[''-s'']" and platformInfo = linux
      and sys = "systemExpecting ''/opt/OmniSharp'' [''-s''] [SpawnEvent] 0"]
  note link1 = mp [OF conjunct1 [OF r1] resolved]
  note link2 = mp [OF conjunct1 [OF r2] resolved]
  note a = mp [OF conjunct1 [OF conjunct2 [OF conjunct2 [OF conjunct2 [OF r1]]]] dll, unfolded nw]
  note b = mp [OF conjunct1 [OF conjunct2 [OF conjunct2 [OF r2]]] exe]
  have one: "launchDotnet (systemExpecting ''dotnet'' [''/opt/OmniSharp.dll'', ''-s''] [SpawnEvent] 0)
      ''/opt/OmniSharp.dll'' ''/work'' [''-s''] linux modernOptions dotnetResolverExample
     = Inr \<lparr>process = \<lparr>pid = Some 4711, events = [SpawnEvent], missed = 0\<rparr>,
            command = ''/opt/OmniSharp.dll'', hostIsMono = False, hostVersion = Some ''6.0.100'',
            hostPath = Some ''/usr/bin/dotnet''\<rparr>"
    unfolding link1 by (simp add: systemExpecting_def a)
  have two: "launchDotnet (systemExpecting ''/opt/OmniSharp'' [''-s''] [SpawnEvent] 0)
      ''/opt/OmniSharp'' ''/work'' [''-s''] linux modernOptions dotnetResolverExample
     = Inr \<lparr>process = \<lparr>pid = Some 4711, events = [SpawnEvent], missed = 0\<rparr>,
            command = ''/opt/OmniSharp'', hostIsMono = False, hostVersion = Some ''6.0.100'',
            hostPath = Some ''/usr/bin/dotnet''\<rparr>"
    unfolding link2 by (simp add: systemExpecting_def b)
  show ?thesis by (rule conjI [OF one two])
qed

text \<open>
  Claim C2, as amended. With the debugger requested, the legacy-runtime path spawns
  \<^verbatim>\<open>mono\<close> with the debugger-agent option first and \<^verbatim>\<open>--debug\<close> second, then
  \<^verbatim>\<open>--assembly-loader=strict\<close>, the launch path and the original arguments in their
  order: the second \<^verbatim>\<open>unshift\<close> puts the agent option in front of \<^verbatim>\<open>--debug\<close>.
\<close>

theorem launchNixMono_debugger_args:
  "launchNixMono sys launchPath dir arguments environment True
     = spawn sys (monoSpawnCall launchPath dir arguments environment True)
   \<and> spawnCommand (monoSpawnCall launchPath dir arguments environment True) = ''mono''
   \<and> spawnArgs (monoSpawnCall launchPath dir arguments environment True)
     = [''--debugger-agent=transport=dt_socket,server=y,address=127.0.0.1:55555'',
        ''--debug'', ''--assembly-loader=strict'', launchPath] @ arguments"
  by (simp add: launchNixMono_def monoSpawnCall_def unshift_def Let_def)

text \<open>
  The amended order at a concrete launch.
\<close>

theorem launchNixMono_debugger_args_witness:
  "spawnArgs (monoSpawnCall ''/opt/OmniSharp.exe'' ''/work'' [''-s'', ''/work''] [] True)
     = [''--debugger-agent=transport=dt_socket,server=y,address=127.0.0.1:55555'',
        ''--debug'', ''--assembly-loader=strict'', ''/opt/OmniSharp.exe'', ''-s'', ''/work'']"
  using launchNixMono_debugger_args [of _ "''/opt/OmniSharp.exe''" "''/work''" "[''-s'', ''/work'']" "[]"]
  by simp

text \<open>
  Claim C2, as stated, puts \<^verbatim>\<open>--debug\<close> first and the debugger-agent option second;
  the argument vector built for a concrete launch is a different one.
\<close>

theorem launchNixMono_debugger_args_counterexample:
  "spawnArgs (monoSpawnCall ''/opt/OmniSharp.exe'' ''/work'' [''-s'', ''/work''] [] True)
     \<noteq> [''--debug'', ''--debugger-agent=transport=dt_socket,server=y,address=127.0.0.1:55555'',
         ''--assembly-loader=strict'', ''/opt/OmniSharp.exe''] @ [''-s'', ''/work'']"
  by (simp add: monoSpawnCall_def unshift_def Let_def)

lemma matchTail_iff:
  "matchTail s \<longleftrightarrow> (\<exists>v d w. s = v @ d # w \<and> d \<noteq> doubleQuote \<and> (\<forall>x \<in> set v. \<not> lineTerminator x))"
proof (induction s)
  case Nil
  then show ?case by simp
next
  case (Cons c cs)
  show ?case
  proof
    assume "matchTail (c # cs)"
    then consider "c \<noteq> doubleQuote" | "\<not> lineTerminator c" "matchTail cs" by auto
    then show "\<exists>v d w. c # cs = v @ d # w \<and> d \<noteq> doubleQuote \<and> (\<forall>x \<in> set v. \<not> lineTerminator x)"
    proof cases
      case 1
      then have "c # cs = [] @ c # cs \<and> c \<noteq> doubleQuote \<and> (\<forall>x \<in> set []. \<not> lineTerminator x)" by simp
      then show ?thesis by blast
    next
      case 2
      then obtain v d w where "cs = v @ d # w" "d \<noteq> doubleQuote" "\<forall>x \<in> set v. \<not> lineTerminator x"
        using Cons.IH by blast
      with 2 have "c # cs = (c # v) @ d # w \<and> d \<noteq> doubleQuote \<and> (\<forall>x \<in> set (c # v). \<not> lineTerminator x)"
        by simp
      then show ?thesis by blast
    qed
  next
    assume "\<exists>v d w. c # cs = v @ d # w \<and> d \<noteq> doubleQuote \<and> (\<forall>x \<in> set v. \<not> lineTerminator x)"
    then obtain v d w where *: "c # cs = v @ d # w" "d \<noteq> doubleQuote" "\<forall>x \<in> set v. \<not> lineTerminator x"
      by blast
    show "matchTail (c # cs)"
    proof (cases v)
      case Nil
      with * show ?thesis by simp
    next
      case (Cons a v')
      with * have "cs = v' @ d # w" "\<not> lineTerminator c" "\<forall>x \<in> set v'. \<not> lineTerminator x" by auto
      with * Cons.IH have "matchTail cs" by blast
      with \<open>\<not> lineTerminator c\<close> show ?thesis by simp
    qed
  qed
qed

lemma matchSpace_iff:
  "matchSpace s \<longleftrightarrow> (\<exists>u r. s = u @ CHR '' '' # r \<and> (\<forall>x \<in> set u. \<not> lineTerminator x) \<and> matchTail r)"
proof (induction s)
  case Nil
  then show ?case by simp
next
  case (Cons c cs)
  show ?case
  proof
    assume "matchSpace (c # cs)"
    then consider "c = CHR '' ''" "matchTail cs" | "\<not> lineTerminator c" "matchSpace cs" by auto
    then show "\<exists>u r. c # cs = u @ CHR '' '' # r \<and> (\<forall>x \<in> set u. \<not> lineTerminator x) \<and> matchTail r"
    proof cases
      case 1
      then have "c # cs = [] @ CHR '' '' # cs \<and> (\<forall>x \<in> set []. \<not> lineTerminator x) \<and> matchTail cs" by simp
      then show ?thesis by blast
    next
      case 2
      then obtain u r where "cs = u @ CHR '' '' # r" "\<forall>x \<in> set u. \<not> lineTerminator x" "matchTail r"
        using Cons.IH by blast
      with 2 have "c # cs = (c # u) @ CHR '' '' # r \<and> (\<forall>x \<in> set (c # u). \<not> lineTerminator x) \<and> matchTail r"
        by simp
      then show ?thesis by blast
    qed
  next
    assume "\<exists>u r. c # cs = u @ CHR '' '' # r \<and> (\<forall>x \<in> set u. \<not> lineTerminator x) \<and> matchTail r"
    then obtain u r where *: "c # cs = u @ CHR '' '' # r" "\<forall>x \<in> set u. \<not> lineTerminator x" "matchTail r"
      by blast
    show "matchSpace (c # cs)"
    proof (cases u)
      case Nil
      with * show ?thesis by simp
    next
      case (Cons a u')
      with * have "cs = u' @ CHR '' '' # r" "\<not> lineTerminator c" "\<forall>x \<in> set u'. \<not> lineTerminator x" by auto
      with * Cons.IH have "matchSpace cs" by blast
      with \<open>\<not> lineTerminator c\<close> show ?thesis by simp
    qed
  qed
qed

lemma hasSpaceWithoutQuotes_iff:
  "hasSpaceWithoutQuotes arg \<longleftrightarrow>
     (\<exists>c u v d w. arg = c # u @ CHR '' '' # v @ d # w \<and> c \<noteq> doubleQuote \<and> d \<noteq> doubleQuote
        \<and> (\<forall>x \<in> set u. \<not> lineTerminator x) \<and> (\<forall>x \<in> set v. \<not> lineTerminator x))"
  unfolding hasSpaceWithoutQuotes_def matchSpace_iff matchTail_iff
  by (cases arg) (auto, blast)

lemma replaceAmpersand_none: "CHR ''&'' \<notin> set s \<Longrightarrow> replaceAmpersand s = s"
  by (induction s) auto

lemma escapeEvery_none: "CHR ''&'' \<notin> set s \<Longrightarrow> escapeEveryAmpersand s = s"
  by (induction s) (auto simp: escapeEveryAmpersand_def)

lemma replaceAmpersand_once:
  "count_list s (CHR ''&'') \<le> 1 \<Longrightarrow> replaceAmpersand s = escapeEveryAmpersand s"
proof (induction s)
  case Nil
  then show ?case by (simp add: escapeEveryAmpersand_def)
next
  case (Cons c cs)
  show ?case
  proof (cases "c = CHR ''&''")
    case True
    with Cons.prems have "count_list cs (CHR ''&'') = 0" by simp
    then have "CHR ''&'' \<notin> set cs" by (simp add: count_list_0_iff)
    then have "escapeEveryAmpersand cs = cs" by (rule escapeEvery_none)
    with True show ?thesis by (simp add: escapeEveryAmpersand_def)
  next
    case False
    with Cons show ?thesis by (simp add: escapeEveryAmpersand_def)
  qed
qed

lemma length_replaceAmpersand: "length (replaceAmpersand s) \<le> Suc (length s)"
  by (induction s) auto

lemma replaceAmpersand_not_wrapped: "replaceAmpersand s \<noteq> [doubleQuote] @ s @ [doubleQuote]"
proof
  assume "replaceAmpersand s = [doubleQuote] @ s @ [doubleQuote]"
  then have "length (replaceAmpersand s) = Suc (Suc (length s))" by simp
  with length_replaceAmpersand [of s] show False by simp
qed

lemma escapeIfNeeded_wrapped_iff:
  "escapeIfNeeded arg = [doubleQuote] @ arg @ [doubleQuote] \<longleftrightarrow> hasSpaceWithoutQuotes arg"
  using replaceAmpersand_not_wrapped [of arg] by (simp add: escapeIfNeeded_def)

lemma join_three: "join sep [a, b, c] = a @ sep @ b @ sep @ c"
  by simp

text \<open>
  Claim C3, as amended. \<^verbatim>\<open>launchWindows\<close> spawns \<^verbatim>\<open>cmd\<close> with one argument:
  \<^verbatim>\<open>/s /c\<close> and, in double quotes, the quoted launch path and the arguments, each
  passed through \<^verbatim>\<open>escapeIfNeeded\<close> and joined by spaces. An argument is wrapped in
  double quotes exactly when it matches \<^verbatim>\<open>/^[^"].* .*[^"]/\<close>: it begins with a
  character other than a double quote, and after that character it has a space that is
  followed, later, by a character other than a double quote, with no line terminator
  between the first character and the space or between the space and that character.
  Any other argument with at most one \<^verbatim>\<open>&\<close> has every \<^verbatim>\<open>&\<close> replaced by
  \<^verbatim>\<open>^&\<close>.
\<close>

theorem escapeIfNeeded_amended:
  "launchWindows sys launchPath dir arguments =
     (case spawn sys (windowsSpawnCall launchPath dir arguments) of
        Inl reason \<Rightarrow> Inl reason
      | Inr p \<Rightarrow> Inr \<lparr>process = p, command = launchPath, hostIsMono = False,
                      hostVersion = None, hostPath = None\<rparr>)
   \<and> spawnCommand (windowsSpawnCall launchPath dir arguments) = ''cmd''
   \<and> spawnArgs (windowsSpawnCall launchPath dir arguments) =
       [''/s /c '' @ [doubleQuote]
          @ join '' '' (map escapeIfNeeded (([doubleQuote] @ launchPath @ [doubleQuote]) # arguments))
          @ [doubleQuote]]
   \<and> (hasSpaceWithoutQuotes arg \<longleftrightarrow>
      (\<exists>c u v d w. arg = c # u @ CHR '' '' # v @ d # w \<and> c \<noteq> doubleQuote \<and> d \<noteq> doubleQuote
         \<and> (\<forall>x \<in> set u. \<not> lineTerminator x) \<and> (\<forall>x \<in> set v. \<not> lineTerminator x)))
   \<and> (escapeIfNeeded arg = [doubleQuote] @ arg @ [doubleQuote] \<longleftrightarrow> hasSpaceWithoutQuotes arg)
   \<and> (\<not> hasSpaceWithoutQuotes arg \<and> count_list arg (CHR ''&'') \<le> 1 \<longrightarrow>
        escapeIfNeeded arg = escapeEveryAmpersand arg)"
proof (intro conjI impI)
  show "launchWindows sys launchPath dir arguments =
     (case spawn sys (windowsSpawnCall launchPath dir arguments) of
        Inl reason \<Rightarrow> Inl reason
      | Inr p \<Rightarrow> Inr \<lparr>process = p, command = launchPath, hostIsMono = False,
                      hostVersion = None, hostPath = None\<rparr>)"
    by (simp add: launchWindows_def)
next
  show "spawnCommand (windowsSpawnCall launchPath dir arguments) = ''cmd''"
    by (simp add: windowsSpawnCall_def Let_def)
next
  show "spawnArgs (windowsSpawnCall launchPath dir arguments) =
       [''/s /c '' @ [doubleQuote]
          @ join '' '' (map escapeIfNeeded (([doubleQuote] @ launchPath @ [doubleQuote]) # arguments))
          @ [doubleQuote]]"
    unfolding windowsSpawnCall_def Let_def unshift_def join_three by simp
next
  show "hasSpaceWithoutQuotes arg \<longleftrightarrow>
      (\<exists>c u v d w. arg = c # u @ CHR '' '' # v @ d # w \<and> c \<noteq> doubleQuote \<and> d \<noteq> doubleQuote
         \<and> (\<forall>x \<in> set u. \<not> lineTerminator x) \<and> (\<forall>x \<in> set v. \<not> lineTerminator x))"
    by (rule hasSpaceWithoutQuotes_iff)
next
  show "escapeIfNeeded arg = [doubleQuote] @ arg @ [doubleQuote] \<longleftrightarrow> hasSpaceWithoutQuotes arg"
    by (rule escapeIfNeeded_wrapped_iff)
next
  assume "\<not> hasSpaceWithoutQuotes arg \<and> count_list arg (CHR ''&'') \<le> 1"
  then show "escapeIfNeeded arg = escapeEveryAmpersand arg"
    by (simp add: escapeIfNeeded_def replaceAmpersand_once)
qed

text \<open>
  The amended rule at an argument with a space, at one with an ampersand, and at a
  launch whose \<^verbatim>\<open>spawn\<close> accepts the expected command line only.
\<close>

theorem escapeIfNeeded_amended_witness:
  "escapeIfNeeded ''my dir'' = [doubleQuote] @ ''my dir'' @ [doubleQuote]
   \<and> escapeIfNeeded ''a&b'' = ''a^&b''
   \<and> launchWindows
        (systemExpecting ''cmd''
           [''/s /c '' @ [doubleQuote, doubleQuote] @ ''C:/omnisharp/OmniSharp.exe'' @ [doubleQuote]
              @ '' -s '' @ [doubleQuote] @ ''C:/my work'' @ [doubleQuote] @ '' a^&b'' @ [doubleQuote]]
           [SpawnEvent] 0)
        ''C:/omnisharp/OmniSharp.exe'' ''C:/work'' [''-s'', ''C:/my work'', ''a&b'']
      = Inr \<lparr>process = \<lparr>pid = Some 4711, events = [SpawnEvent], missed = 0\<rparr>,
             command = ''C:/omnisharp/OmniSharp.exe'', hostIsMono = False, hostVersion = None,
             hostPath = None\<rparr>"
proof -
  let ?sys = "systemExpecting ''cmd''
           [''/s /c '' @ [doubleQuote, doubleQuote] @ ''C:/omnisharp/OmniSharp.exe'' @ [doubleQuote]
              @ '' -s '' @ [doubleQuote] @ ''C:/my work'' @ [doubleQuote] @ '' a^&b'' @ [doubleQuote]]
           [SpawnEvent] 0"
  have w: "hasSpaceWithoutQuotes ''my dir''"
    by (simp add: hasSpaceWithoutQuotes_def doubleQuote_def lineTerminator_def)
  have n: "\<not> hasSpaceWithoutQuotes ''a&b'' \<and> count_list ''a&b'' (CHR ''&'') \<le> 1"
    by (simp add: hasSpaceWithoutQuotes_def doubleQuote_def lineTerminator_def)
  have e: "escapeEveryAmpersand ''a&b'' = ''a^&b''"
    by (simp add: escapeEveryAmpersand_def)
  note rule = escapeIfNeeded_amended
  have one: "escapeIfNeeded ''my dir'' = [doubleQuote] @ ''my dir'' @ [doubleQuote]"
    using w by (rule iffD2 [OF conjunct1 [OF conjunct2 [OF conjunct2 [OF conjunct2 [OF conjunct2 [OF rule]]]]]])
  have "escapeIfNeeded ''a&b'' = escapeEveryAmpersand ''a&b''"
    using n by (rule mp [OF conjunct2 [OF conjunct2 [OF conjunct2 [OF conjunct2 [OF conjunct2 [OF rule]]]]], rotated])
  with e have two: "escapeIfNeeded ''a&b'' = ''a^&b''" by simp
  have started: "spawn ?sys (windowsSpawnCall ''C:/omnisharp/OmniSharp.exe'' ''C:/work'' [''-s'', ''C:/my work'', ''a&b''])
      = Inr \<lparr>pid = Some 4711, events = [SpawnEvent], missed = 0\<rparr>"
    by code_simp
  have three: "launchWindows ?sys ''C:/omnisharp/OmniSharp.exe'' ''C:/work'' [''-s'', ''C:/my work'', ''a&b'']
      = Inr \<lparr>process = \<lparr>pid = Some 4711, events = [SpawnEvent], missed = 0\<rparr>,
             command = ''C:/omnisharp/OmniSharp.exe'', hostIsMono = False, hostVersion = None,
             hostPath = None\<rparr>"
    unfolding conjunct1 [OF rule] started by simp
  show ?thesis by (rule conjI [OF one conjI [OF two three]])
qed

text \<open>
  Claim C3, as stated, wraps every argument that contains whitespace and is not fully
  quoted. An argument that opens with a double quote, contains a space and does not
  close the quote is left as it is.
\<close>

theorem escapeIfNeeded_counterexample:
  "escapeIfNeeded (doubleQuote # ''my dir'') \<noteq> escapeIfNeeded_spec (doubleQuote # ''my dir'')"
  by (simp add: escapeIfNeeded_def escapeIfNeeded_spec_def hasSpaceWithoutQuotes_def
      fullyQuoted_def whitespace_def doubleQuote_def lineTerminator_def)

text \<open>With no editor setting the three formatting arguments carry the defaults.\<close>

lemma formattingArgs_defaults:
  "formattingArgs (exampleSystem []) =
     [''formattingOptions:useTabs=false'', ''formattingOptions:tabSize=4'',
      ''formattingOptions:indentationSize=4'']"
  by code_simp

subsection \<open>The promise of launchOmniSharp\<close>

lemma settled_Fulfilled: "foldl (onEvent result) (Fulfilled v) evs = Fulfilled v"
  by (induction evs) (auto simp: onEvent_def resolve_def reject_def split: ProcessEvent.splits)

lemma settled_Rejected: "foldl (onEvent result) (Rejected reason) evs = Rejected reason"
  by (induction evs) (auto simp: onEvent_def resolve_def reject_def split: ProcessEvent.splits)

lemma listen_Cons:
  "foldl (onEvent result) (onEvent result Pending ev) evs =
     (case ev of
        SpawnEvent \<Rightarrow> Fulfilled result
      | ErrorEvent err \<Rightarrow> Rejected err
      | OtherEvent s \<Rightarrow> foldl (onEvent result) Pending evs)"
  by (cases ev) (simp_all add: onEvent_def resolve_def reject_def settled_Fulfilled settled_Rejected)

lemma listen_Fulfilled_iff:
  "foldl (onEvent result) Pending evs = Fulfilled v \<longleftrightarrow>
     v = result \<and> (\<exists>pre post. evs = pre @ SpawnEvent # post \<and> (\<forall>ev \<in> set pre. \<forall>err. ev \<noteq> ErrorEvent err))"
proof (induction evs)
  case Nil
  then show ?case by simp
next
  case (Cons ev evs)
  show ?case
  proof (cases ev)
    case SpawnEvent
    have "ev # evs = [] @ SpawnEvent # evs \<and> (\<forall>x \<in> set []. \<forall>err. x \<noteq> ErrorEvent err)"
      using SpawnEvent by simp
    then have "\<exists>pre post. ev # evs = pre @ SpawnEvent # post \<and> (\<forall>x \<in> set pre. \<forall>err. x \<noteq> ErrorEvent err)"
      by blast
    then show ?thesis using SpawnEvent by (auto simp: listen_Cons)
  next
    case (ErrorEvent err)
    have "\<not> (\<exists>pre post. ev # evs = pre @ SpawnEvent # post \<and> (\<forall>x \<in> set pre. \<forall>e. x \<noteq> ErrorEvent e))"
    proof
      assume "\<exists>pre post. ev # evs = pre @ SpawnEvent # post \<and> (\<forall>x \<in> set pre. \<forall>e. x \<noteq> ErrorEvent e)"
      then obtain pre post where *: "ev # evs = pre @ SpawnEvent # post" "\<forall>x \<in> set pre. \<forall>e. x \<noteq> ErrorEvent e"
        by blast
      then show False using ErrorEvent by (cases pre) auto
    qed
    then show ?thesis using ErrorEvent by (simp add: listen_Cons)
  next
    case (OtherEvent s)
    have "(\<exists>pre post. ev # evs = pre @ SpawnEvent # post \<and> (\<forall>x \<in> set pre. \<forall>e. x \<noteq> ErrorEvent e))
          \<longleftrightarrow> (\<exists>pre post. evs = pre @ SpawnEvent # post \<and> (\<forall>x \<in> set pre. \<forall>e. x \<noteq> ErrorEvent e))"
      (is "?L \<longleftrightarrow> ?R")
    proof
      assume ?L
      then obtain pre post where *: "ev # evs = pre @ SpawnEvent # post" "\<forall>x \<in> set pre. \<forall>e. x \<noteq> ErrorEvent e"
        by blast
      then obtain pre' where "pre = ev # pre'" using OtherEvent by (cases pre) auto
      with * have "evs = pre' @ SpawnEvent # post \<and> (\<forall>x \<in> set pre'. \<forall>e. x \<noteq> ErrorEvent e)" by simp
      then show ?R by blast
    next
      assume ?R
      then obtain pre post where "evs = pre @ SpawnEvent # post" "\<forall>x \<in> set pre. \<forall>e. x \<noteq> ErrorEvent e"
        by blast
      then have "ev # evs = (ev # pre) @ SpawnEvent # post \<and> (\<forall>x \<in> set (ev # pre). \<forall>e. x \<noteq> ErrorEvent e)"
        using OtherEvent by simp
      then show ?L by blast
    qed
    then show ?thesis using OtherEvent Cons.IH by (simp add: listen_Cons)
  qed
qed

lemma listen_Rejected_iff:
  "foldl (onEvent result) Pending evs = Rejected reason \<longleftrightarrow>
     (\<exists>pre post. evs = pre @ ErrorEvent reason # post \<and> SpawnEvent \<notin> set pre
        \<and> (\<forall>ev \<in> set pre. \<forall>err. ev \<noteq> ErrorEvent err))"
proof (induction evs)
  case Nil
  then show ?case by simp
next
  case (Cons ev evs)
  show ?case
  proof (cases ev)
    case SpawnEvent
    have "\<not> (\<exists>pre post. ev # evs = pre @ ErrorEvent reason # post \<and> SpawnEvent \<notin> set pre
        \<and> (\<forall>x \<in> set pre. \<forall>e. x \<noteq> ErrorEvent e))"
    proof
      assume "\<exists>pre post. ev # evs = pre @ ErrorEvent reason # post \<and> SpawnEvent \<notin> set pre
        \<and> (\<forall>x \<in> set pre. \<forall>e. x \<noteq> ErrorEvent e)"
      then obtain pre post where "ev # evs = pre @ ErrorEvent reason # post" "SpawnEvent \<notin> set pre"
        by blast
      then show False using SpawnEvent by (cases pre) auto
    qed
    then show ?thesis using SpawnEvent by (simp add: listen_Cons)
  next
    case (ErrorEvent err)
    have "(\<exists>pre post. ev # evs = pre @ ErrorEvent reason # post \<and> SpawnEvent \<notin> set pre
        \<and> (\<forall>x \<in> set pre. \<forall>e. x \<noteq> ErrorEvent e)) \<longleftrightarrow> err = reason" (is "?L \<longleftrightarrow> _")
    proof
      assume ?L
      then obtain pre post where *: "ev # evs = pre @ ErrorEvent reason # post"
        "\<forall>x \<in> set pre. \<forall>e. x \<noteq> ErrorEvent e" by blast
      then show "err = reason" using ErrorEvent by (cases pre) auto
    next
      assume "err = reason"
      then have "ev # evs = [] @ ErrorEvent reason # evs \<and> SpawnEvent \<notin> set []
          \<and> (\<forall>x \<in> set []. \<forall>e. x \<noteq> ErrorEvent e)" using ErrorEvent by simp
      then show ?L by blast
    qed
    then show ?thesis using ErrorEvent by (simp add: listen_Cons)
  next
    case (OtherEvent s)
    have "(\<exists>pre post. ev # evs = pre @ ErrorEvent reason # post \<and> SpawnEvent \<notin> set pre
             \<and> (\<forall>x \<in> set pre. \<forall>e. x \<noteq> ErrorEvent e))
          \<longleftrightarrow> (\<exists>pre post. evs = pre @ ErrorEvent reason # post \<and> SpawnEvent \<notin> set pre
             \<and> (\<forall>x \<in> set pre. \<forall>e. x \<noteq> ErrorEvent e))"
      (is "?L \<longleftrightarrow> ?R")
    proof
      assume ?L
      then obtain pre post where *: "ev # evs = pre @ ErrorEvent reason # post" "SpawnEvent \<notin> set pre"
        "\<forall>x \<in> set pre. \<forall>e. x \<noteq> ErrorEvent e" by blast
      then obtain pre' where "pre = ev # pre'" using OtherEvent by (cases pre) auto
      with * have "evs = pre' @ ErrorEvent reason # post \<and> SpawnEvent \<notin> set pre'
          \<and> (\<forall>x \<in> set pre'. \<forall>e. x \<noteq> ErrorEvent e)" by simp
      then show ?R by blast
    next
      assume ?R
      then obtain pre post where "evs = pre @ ErrorEvent reason # post" "SpawnEvent \<notin> set pre"
        "\<forall>x \<in> set pre. \<forall>e. x \<noteq> ErrorEvent e" by blast
      then have "ev # evs = (ev # pre) @ ErrorEvent reason # post \<and> SpawnEvent \<notin> set (ev # pre)
          \<and> (\<forall>x \<in> set (ev # pre). \<forall>e. x \<noteq> ErrorEvent e)"
        using OtherEvent by simp
      then show ?L by blast
    qed
    then show ?thesis using OtherEvent Cons.IH by (simp add: listen_Cons)
  qed
qed

lemma listen_Pending_iff:
  "foldl (onEvent result) Pending evs = Pending \<longleftrightarrow> (\<forall>ev \<in> set evs. \<exists>s. ev = OtherEvent s)"
  by (induction evs) (auto simp: listen_Cons split: ProcessEvent.splits)

lemma launch_resolver_fails:
  "useModernNet options \<Longrightarrow> dotnetResolver options = Inl reason \<Longrightarrow>
     launch sys dir arguments launchPath platformInfo options monoResolver dotnetResolver = Inl reason"
  "\<not> useModernNet options \<Longrightarrow> \<not> isWindows platformInfo \<Longrightarrow> monoResolver options = Inl reason \<Longrightarrow>
     launch sys dir arguments launchPath platformInfo options monoResolver dotnetResolver = Inl reason"
  by (simp_all add: launch_def launchDotnet_def launchNix_def Let_def)

lemma launch_spawn_fails:
  "useModernNet options \<Longrightarrow> dotnetResolver options = Inr dotnetInfo \<Longrightarrow>
     spawn sys (dotnetSpawnCall launchPath dir (launchArguments sys options arguments) platformInfo dotnetInfo)
       = Inl reason \<Longrightarrow>
     launch sys dir arguments launchPath platformInfo options monoResolver dotnetResolver = Inl reason"
  "\<not> useModernNet options \<Longrightarrow> isWindows platformInfo \<Longrightarrow>
     spawn sys (windowsSpawnCall launchPath dir (launchArguments sys options arguments)) = Inl reason \<Longrightarrow>
     launch sys dir arguments launchPath platformInfo options monoResolver dotnetResolver = Inl reason"
  "\<not> useModernNet options \<Longrightarrow> \<not> isWindows platformInfo \<Longrightarrow> monoResolver options = Inr monoInfo \<Longrightarrow>
     spawn sys (monoSpawnCall launchPath dir (launchArguments sys options arguments) (hostEnv monoInfo)
        (waitForDebugger options)) = Inl reason \<Longrightarrow>
     launch sys dir arguments launchPath platformInfo options monoResolver dotnetResolver = Inl reason"
  by (simp_all add: launch_def launchDotnet_def launchWindows_def launchNix_def launchNixMono_def Let_def)

lemma promise_Fulfilled_iff:
  "launchOmniSharp sys dir arguments launchPath platformInfo options monoResolver dotnetResolver = Fulfilled result \<longleftrightarrow>
      launch sys dir arguments launchPath platformInfo options monoResolver dotnetResolver = Inr result
      \<and> (\<exists>pre post. heard (process result) = pre @ SpawnEvent # post
             \<and> (\<forall>ev \<in> set pre. \<forall>err. ev \<noteq> ErrorEvent err))"
proof (cases "launch sys dir arguments launchPath platformInfo options monoResolver dotnetResolver")
  case (Inl why)
  then show ?thesis by (simp add: launchOmniSharp_def reject_def)
next
  case (Inr started)
  then show ?thesis
    using listen_Fulfilled_iff [of started "heard (process started)" result]
    by (auto simp: launchOmniSharp_def)
qed

lemma promise_Rejected_iff:
  "launchOmniSharp sys dir arguments launchPath platformInfo options monoResolver dotnetResolver = Rejected reason \<longleftrightarrow>
      launch sys dir arguments launchPath platformInfo options monoResolver dotnetResolver = Inl reason
      \<or> (\<exists>started pre post.
             launch sys dir arguments launchPath platformInfo options monoResolver dotnetResolver = Inr started
             \<and> heard (process started) = pre @ ErrorEvent reason # post \<and> SpawnEvent \<notin> set pre
             \<and> (\<forall>ev \<in> set pre. \<forall>err. ev \<noteq> ErrorEvent err))"
proof (cases "launch sys dir arguments launchPath platformInfo options monoResolver dotnetResolver")
  case (Inl why)
  then show ?thesis by (auto simp: launchOmniSharp_def reject_def)
next
  case (Inr started)
  then show ?thesis
    using listen_Rejected_iff [of started "heard (process started)" reason]
    by (simp add: launchOmniSharp_def)
qed

lemma promise_Pending_iff:
  "launchOmniSharp sys dir arguments launchPath platformInfo options monoResolver dotnetResolver = Pending \<longleftrightarrow>
        (\<exists>started. launch sys dir arguments launchPath platformInfo options monoResolver dotnetResolver = Inr started
           \<and> (\<forall>ev \<in> set (heard (process started)). \<exists>s. ev = OtherEvent s))"
proof (cases "launch sys dir arguments launchPath platformInfo options monoResolver dotnetResolver")
  case (Inl why)
  then show ?thesis by (simp add: launchOmniSharp_def reject_def)
next
  case (Inr started)
  then show ?thesis
    using listen_Pending_iff [of started "heard (process started)"]
    by (simp add: launchOmniSharp_def)
qed

lemma promise_settled_iff:
  "(\<exists>v. launchOmniSharp sys dir arguments launchPath platformInfo options monoResolver dotnetResolver = Fulfilled v)
     \<or> (\<exists>why. launchOmniSharp sys dir arguments launchPath platformInfo options monoResolver dotnetResolver = Rejected why)
   \<longleftrightarrow>
   (\<exists>why. launch sys dir arguments launchPath platformInfo options monoResolver dotnetResolver = Inl why)
     \<or> (\<exists>started. launch sys dir arguments launchPath platformInfo options monoResolver dotnetResolver = Inr started
           \<and> list_ex (\<lambda>ev. ev = SpawnEvent \<or> (\<exists>err. ev = ErrorEvent err)) (heard (process started)))"
proof -
  let ?P = "launchOmniSharp sys dir arguments launchPath platformInfo options monoResolver dotnetResolver"
  let ?L = "launch sys dir arguments launchPath platformInfo options monoResolver dotnetResolver"
  have settled: "(\<exists>v. ?P = Fulfilled v) \<or> (\<exists>why. ?P = Rejected why) \<longleftrightarrow> ?P \<noteq> Pending"
    by (cases ?P) auto
  have quiet: "(\<forall>ev \<in> set evs. \<exists>s. ev = OtherEvent s)
      \<longleftrightarrow> \<not> list_ex (\<lambda>ev. ev = SpawnEvent \<or> (\<exists>err. ev = ErrorEvent err)) evs" for evs
  proof (induction evs)
    case Nil
    show ?case by simp
  next
    case (Cons ev evs)
    then show ?case by (cases ev) simp_all
  qed
  show ?thesis
  proof (cases ?L)
    case (Inl why)
    then show ?thesis by (simp add: launchOmniSharp_def reject_def)
  next
    case (Inr started)
    have "?P \<noteq> Pending \<longleftrightarrow>
        list_ex (\<lambda>ev. ev = SpawnEvent \<or> (\<exists>err. ev = ErrorEvent err)) (heard (process started))"
      using promise_Pending_iff [of sys dir arguments launchPath platformInfo options monoResolver dotnetResolver]
        Inr quiet [of "heard (process started)"]
      by simp
    with settled Inr show ?thesis by simp
  qed
qed

text \<open>
  Claim C6, as amended. The listeners are attached in the \<^verbatim>\<open>then\<close> callback of
  \<^verbatim>\<open>launch\<close>, so only the events the process reports from then on count. The promise
  is fulfilled with the launch result exactly when \<^verbatim>\<open>launch\<close> succeeds and, among
  those events, \<^verbatim>\<open>spawn\<close> comes with no \<^verbatim>\<open>error\<close> before it; it is rejected
  exactly when \<^verbatim>\<open>launch\<close> fails or, among those events, \<^verbatim>\<open>error\<close> comes before
  any \<^verbatim>\<open>spawn\<close>. A rejected resolver and a \<^verbatim>\<open>spawn\<close> that throws on the call of
  the chosen strategy reject it with their reason. It is settled exactly when
  \<^verbatim>\<open>launch\<close> fails or one of the two events is among those heard, it stays pending
  otherwise, and it never has both outcomes.
\<close>

theorem launchOmniSharp_settles:
  "(launchOmniSharp sys dir arguments launchPath platformInfo options monoResolver dotnetResolver = Fulfilled result \<longleftrightarrow>
      launch sys dir arguments launchPath platformInfo options monoResolver dotnetResolver = Inr result
      \<and> (\<exists>pre post. heard (process result) = pre @ SpawnEvent # post
             \<and> (\<forall>ev \<in> set pre. \<forall>err. ev \<noteq> ErrorEvent err)))
   \<and> (launchOmniSharp sys dir arguments launchPath platformInfo options monoResolver dotnetResolver = Rejected reason \<longleftrightarrow>
      launch sys dir arguments launchPath platformInfo options monoResolver dotnetResolver = Inl reason
      \<or> (\<exists>started pre post.
             launch sys dir arguments launchPath platformInfo options monoResolver dotnetResolver = Inr started
             \<and> heard (process started) = pre @ ErrorEvent reason # post \<and> SpawnEvent \<notin> set pre
             \<and> (\<forall>ev \<in> set pre. \<forall>err. ev \<noteq> ErrorEvent err)))
   \<and> (useModernNet options \<and> dotnetResolver options = Inl reason \<longrightarrow>
        launchOmniSharp sys dir arguments launchPath platformInfo options monoResolver dotnetResolver = Rejected reason)
   \<and> (\<not> useModernNet options \<and> \<not> isWindows platformInfo \<and> monoResolver options = Inl reason \<longrightarrow>
        launchOmniSharp sys dir arguments launchPath platformInfo options monoResolver dotnetResolver = Rejected reason)
   \<and> (useModernNet options \<and> dotnetResolver options = Inr dotnetInfo
        \<and> spawn sys (dotnetSpawnCall launchPath dir (launchArguments sys options arguments) platformInfo dotnetInfo)
              = Inl reason \<longrightarrow>
        launchOmniSharp sys dir arguments launchPath platformInfo options monoResolver dotnetResolver = Rejected reason)
   \<and> (\<not> useModernNet options \<and> isWindows platformInfo
        \<and> spawn sys (windowsSpawnCall launchPath dir (launchArguments sys options arguments)) = Inl reason \<longrightarrow>
        launchOmniSharp sys dir arguments launchPath platformInfo options monoResolver dotnetResolver = Rejected reason)
   \<and> (\<not> useModernNet options \<and> \<not> isWindows platformInfo \<and> monoResolver options = Inr monoInfo
        \<and> spawn sys (monoSpawnCall launchPath dir (launchArguments sys options arguments) (hostEnv monoInfo)
              (waitForDebugger options)) = Inl reason \<longrightarrow>
        launchOmniSharp sys dir arguments launchPath platformInfo options monoResolver dotnetResolver = Rejected reason)
   \<and> (launchOmniSharp sys dir arguments launchPath platformInfo options monoResolver dotnetResolver = Pending \<longleftrightarrow>
        (\<exists>started. launch sys dir arguments launchPath platformInfo options monoResolver dotnetResolver = Inr started
           \<and> (\<forall>ev \<in> set (heard (process started)). \<exists>s. ev = OtherEvent s)))
   \<and> ((\<exists>v. launchOmniSharp sys dir arguments launchPath platformInfo options monoResolver dotnetResolver = Fulfilled v)
          \<or> (\<exists>why. launchOmniSharp sys dir arguments launchPath platformInfo options monoResolver dotnetResolver = Rejected why)
        \<longleftrightarrow>
        (\<exists>why. launch sys dir arguments launchPath platformInfo options monoResolver dotnetResolver = Inl why)
          \<or> (\<exists>started. launch sys dir arguments launchPath platformInfo options monoResolver dotnetResolver = Inr started
                \<and> list_ex (\<lambda>ev. ev = SpawnEvent \<or> (\<exists>err. ev = ErrorEvent err)) (heard (process started))))
   \<and> \<not> ((\<exists>v. launchOmniSharp sys dir arguments launchPath platformInfo options monoResolver dotnetResolver = Fulfilled v)
          \<and> (\<exists>why. launchOmniSharp sys dir arguments launchPath platformInfo options monoResolver dotnetResolver = Rejected why))"
proof (intro conjI impI)
  show "launchOmniSharp sys dir arguments launchPath platformInfo options monoResolver dotnetResolver = Fulfilled result \<longleftrightarrow>
      launch sys dir arguments launchPath platformInfo options monoResolver dotnetResolver = Inr result
      \<and> (\<exists>pre post. heard (process result) = pre @ SpawnEvent # post
             \<and> (\<forall>ev \<in> set pre. \<forall>err. ev \<noteq> ErrorEvent err))"
    by (rule promise_Fulfilled_iff)
next
  show "launchOmniSharp sys dir arguments launchPath platformInfo options monoResolver dotnetResolver = Rejected reason \<longleftrightarrow>
      launch sys dir arguments launchPath platformInfo options monoResolver dotnetResolver = Inl reason
      \<or> (\<exists>started pre post.
             launch sys dir arguments launchPath platformInfo options monoResolver dotnetResolver = Inr started
             \<and> heard (process started) = pre @ ErrorEvent reason # post \<and> SpawnEvent \<notin> set pre
             \<and> (\<forall>ev \<in> set pre. \<forall>err. ev \<noteq> ErrorEvent err))"
    by (rule promise_Rejected_iff)
next
  assume "useModernNet options \<and> dotnetResolver options = Inl reason"
  then have "launch sys dir arguments launchPath platformInfo options monoResolver dotnetResolver = Inl reason"
    by (simp add: launch_resolver_fails(1))
  then show "launchOmniSharp sys dir arguments launchPath platformInfo options monoResolver dotnetResolver = Rejected reason"
    by (simp add: promise_Rejected_iff)
next
  assume "\<not> useModernNet options \<and> \<not> isWindows platformInfo \<and> monoResolver options = Inl reason"
  then have "launch sys dir arguments launchPath platformInfo options monoResolver dotnetResolver = Inl reason"
    by (simp add: launch_resolver_fails(2))
  then show "launchOmniSharp sys dir arguments launchPath platformInfo options monoResolver dotnetResolver = Rejected reason"
    by (simp add: promise_Rejected_iff)
next
  assume "useModernNet options \<and> dotnetResolver options = Inr dotnetInfo
        \<and> spawn sys (dotnetSpawnCall launchPath dir (launchArguments sys options arguments) platformInfo dotnetInfo)
              = Inl reason"
  then have "launch sys dir arguments launchPath platformInfo options monoResolver dotnetResolver = Inl reason"
    by (simp add: launch_spawn_fails(1))
  then show "launchOmniSharp sys dir arguments launchPath platformInfo options monoResolver dotnetResolver = Rejected reason"
    by (simp add: promise_Rejected_iff)
next
  assume "\<not> useModernNet options \<and> isWindows platformInfo
        \<and> spawn sys (windowsSpawnCall launchPath dir (launchArguments sys options arguments)) = Inl reason"
  then have "launch sys dir arguments launchPath platformInfo options monoResolver dotnetResolver = Inl reason"
    by (simp add: launch_spawn_fails(2))
  then show "launchOmniSharp sys dir arguments launchPath platformInfo options monoResolver dotnetResolver = Rejected reason"
    by (simp add: promise_Rejected_iff)
next
  assume "\<not> useModernNet options \<and> \<not> isWindows platformInfo \<and> monoResolver options = Inr monoInfo
        \<and> spawn sys (monoSpawnCall launchPath dir (launchArguments sys options arguments) (hostEnv monoInfo)
              (waitForDebugger options)) = Inl reason"
  then have "launch sys dir arguments launchPath platformInfo options monoResolver dotnetResolver = Inl reason"
    by (simp add: launch_spawn_fails(3))
  then show "launchOmniSharp sys dir arguments launchPath platformInfo options monoResolver dotnetResolver = Rejected reason"
    by (simp add: promise_Rejected_iff)
next
  show "launchOmniSharp sys dir arguments launchPath platformInfo options monoResolver dotnetResolver = Pending \<longleftrightarrow>
        (\<exists>started. launch sys dir arguments launchPath platformInfo options monoResolver dotnetResolver = Inr started
           \<and> (\<forall>ev \<in> set (heard (process started)). \<exists>s. ev = OtherEvent s))"
    by (rule promise_Pending_iff)
next
  show "(\<exists>v. launchOmniSharp sys dir arguments launchPath platformInfo options monoResolver dotnetResolver = Fulfilled v)
          \<or> (\<exists>why. launchOmniSharp sys dir arguments launchPath platformInfo options monoResolver dotnetResolver = Rejected why)
        \<longleftrightarrow>
        (\<exists>why. launch sys dir arguments launchPath platformInfo options monoResolver dotnetResolver = Inl why)
          \<or> (\<exists>started. launch sys dir arguments launchPath platformInfo options monoResolver dotnetResolver = Inr started
                \<and> list_ex (\<lambda>ev. ev = SpawnEvent \<or> (\<exists>err. ev = ErrorEvent err)) (heard (process started)))"
    by (rule promise_settled_iff)
next
  show "\<not> ((\<exists>v. launchOmniSharp sys dir arguments launchPath platformInfo options monoResolver dotnetResolver = Fulfilled v)
          \<and> (\<exists>why. launchOmniSharp sys dir arguments launchPath platformInfo options monoResolver dotnetResolver = Rejected why))"
    by auto
qed

text \<open>
  A process that reports \<^verbatim>\<open>spawn\<close> and an \<^verbatim>\<open>error\<close> afterwards: the promise is
  fulfilled and stays so.
\<close>

theorem launchOmniSharp_settles_witness:
  "launchOmniSharp (exampleSystem [OtherEvent ''message'', SpawnEvent, ErrorEvent (Failure ''late'')])
      ''/work'' [''-s'', ''/work''] ''/opt/OmniSharp.exe'' linux legacyOptions exampleResolver exampleResolver
    = Fulfilled \<lparr>process = \<lparr>pid = Some 4711,
          events = [OtherEvent ''message'', SpawnEvent, ErrorEvent (Failure ''late'')], missed = 0\<rparr>,
        command = ''/opt/OmniSharp.exe'', hostIsMono = True, hostVersion = Some ''6.12.0'',
        hostPath = Some ''/usr/bin/mono''\<rparr>"
proof -
  let ?evs = "[OtherEvent ''message'', SpawnEvent, ErrorEvent (Failure ''late'')]"
  let ?result = "\<lparr>process = \<lparr>pid = Some 4711, events = ?evs, missed = 0\<rparr>,
        command = ''/opt/OmniSharp.exe'', hostIsMono = True, hostVersion = Some ''6.12.0'',
        hostPath = Some ''/usr/bin/mono''\<rparr>"
  have l: "launch (exampleSystem ?evs) ''/work'' [''-s'', ''/work''] ''/opt/OmniSharp.exe'' linux
             legacyOptions exampleResolver exampleResolver = Inr ?result"
    by (simp add: launch_def launchNix_def launchNixMono_def exampleSystem_def exampleResolver_def
        legacyOptions_def linux_def)
  have e: "heard (process ?result) = [OtherEvent ''message''] @ SpawnEvent # [ErrorEvent (Failure ''late'')]
      \<and> (\<forall>ev \<in> set [OtherEvent ''message'']. \<forall>err. ev \<noteq> ErrorEvent err)"
    by (simp add: heard_def)
  then have "\<exists>pre post. heard (process ?result) = pre @ SpawnEvent # post
      \<and> (\<forall>ev \<in> set pre. \<forall>err. ev \<noteq> ErrorEvent err)"
    by blast
  then have "launch (exampleSystem ?evs) ''/work'' [''-s'', ''/work''] ''/opt/OmniSharp.exe'' linux
             legacyOptions exampleResolver exampleResolver = Inr ?result
      \<and> (\<exists>pre post. heard (process ?result) = pre @ SpawnEvent # post
           \<and> (\<forall>ev \<in> set pre. \<forall>err. ev \<noteq> ErrorEvent err))"
    using l by (rule conjI [rotated])
  then show ?thesis
    by (rule iffD2 [OF conjunct1 [OF launchOmniSharp_settles]])
qed

text \<open>
  Claim C6, as stated, resolves the promise whenever the process reports \<^verbatim>\<open>spawn\<close>
  before any \<^verbatim>\<open>error\<close>. On the Windows path \<^verbatim>\<open>spawn\<close> is called in the same
  turn as \<^verbatim>\<open>launchOmniSharp\<close>; a process that reports \<^verbatim>\<open>spawn\<close> before the
  \<^verbatim>\<open>then\<close> callback runs is not heard, and the promise stays pending.
\<close>

theorem launchOmniSharp_settles_counterexample:
  "launch (lateListenerSystem [SpawnEvent] 1) ''C:/work'' [''-s'', ''C:/work''] ''C:/omnisharp/OmniSharp.exe''
       windows legacyOptions exampleResolver exampleResolver
     = Inr \<lparr>process = \<lparr>pid = Some 4711, events = [SpawnEvent], missed = 1\<rparr>,
            command = ''C:/omnisharp/OmniSharp.exe'', hostIsMono = False, hostVersion = None,
            hostPath = None\<rparr>
   \<and> launchOmniSharp (lateListenerSystem [SpawnEvent] 1) ''C:/work'' [''-s'', ''C:/work'']
       ''C:/omnisharp/OmniSharp.exe'' windows legacyOptions exampleResolver exampleResolver
     = Pending"
  by (simp add: launchOmniSharp_def launch_def launchWindows_def lateListenerSystem_def windows_def
      legacyOptions_def heard_def)

end
